theory Spec2Isabelle
  imports Complex_Main
begin

section \<open>JavaScript numbers\<close>

text \<open>
  The program computes with JavaScript numbers. A number is modelled as a real, or one of
  the three special values \<open>NaN\<close>, \<open>Infinity\<close> and \<open>-Infinity\<close>, which the
  program meets when a field does not parse or parses to an infinite value. Finite
  arithmetic is exact: the rounding and the overflow of IEEE doubles are left out, and
  there is a single zero. The sign of a zero shows only in a division by zero; no result
  below rests on the sign of such a quotient.
\<close>

datatype jsnum = NaN | NInf | Fin real | PInf

instantiation jsnum :: "{plus, uminus, minus, times, inverse, ord}"
begin

fun plus_jsnum :: "jsnum \<Rightarrow> jsnum \<Rightarrow> jsnum" where
  "NaN + _ = NaN"
| "_ + NaN = NaN"
| "Fin a + Fin b = Fin (a + b)"
| "PInf + NInf = NaN"
| "NInf + PInf = NaN"
| "PInf + _ = PInf"
| "_ + PInf = PInf"
| "NInf + _ = NInf"
| "_ + NInf = NInf"

fun uminus_jsnum :: "jsnum \<Rightarrow> jsnum" where
  "- NaN = NaN"
| "- NInf = PInf"
| "- (Fin a) = Fin (- a)"
| "- PInf = NInf"

definition minus_jsnum :: "jsnum \<Rightarrow> jsnum \<Rightarrow> jsnum" where
  "a - b = a + (- b)" for a b :: jsnum

fun times_jsnum :: "jsnum \<Rightarrow> jsnum \<Rightarrow> jsnum" where
  "NaN * _ = NaN"
| "_ * NaN = NaN"
| "Fin a * Fin b = Fin (a * b)"
| "Fin a * PInf = (if a = 0 then NaN else if 0 < a then PInf else NInf)"
| "Fin a * NInf = (if a = 0 then NaN else if 0 < a then NInf else PInf)"
| "PInf * Fin b = (if b = 0 then NaN else if 0 < b then PInf else NInf)"
| "NInf * Fin b = (if b = 0 then NaN else if 0 < b then NInf else PInf)"
| "PInf * PInf = PInf"
| "PInf * NInf = NInf"
| "NInf * PInf = NInf"
| "NInf * NInf = PInf"

fun divide_jsnum :: "jsnum \<Rightarrow> jsnum \<Rightarrow> jsnum" where
  "NaN div _ = NaN"
| "_ div NaN = NaN"
| "Fin a div Fin b =
     (if b \<noteq> 0 then Fin (a / b) else if a = 0 then NaN else if 0 < a then PInf else NInf)"
| "Fin a div PInf = Fin 0"
| "Fin a div NInf = Fin 0"
| "PInf div Fin b = (if 0 \<le> b then PInf else NInf)"
| "NInf div Fin b = (if 0 \<le> b then NInf else PInf)"
| "_ div _ = NaN"

definition inverse_jsnum :: "jsnum \<Rightarrow> jsnum" where
  "inverse a = Fin 1 div a" for a :: jsnum

fun less_jsnum :: "jsnum \<Rightarrow> jsnum \<Rightarrow> bool" where
  "NaN < _ = False"
| "_ < NaN = False"
| "Fin a < Fin b = (a < b)"
| "NInf < NInf = False"
| "NInf < _ = True"
| "_ < NInf = False"
| "PInf < _ = False"
| "_ < PInf = True"

definition less_eq_jsnum :: "jsnum \<Rightarrow> jsnum \<Rightarrow> bool" where
  "a \<le> b \<longleftrightarrow> a < b \<or> (a \<noteq> NaN \<and> a = b)" for a b :: jsnum

instance ..

end

text \<open>\<open>isNaN\<close>, the strict equality \<open>===\<close> on numbers, \<open>Math.max\<close> and
  \<open>Math.sqrt\<close>.\<close>

definition isNaN :: "jsnum \<Rightarrow> bool" where
  "isNaN a = (a = NaN)"

definition strict_eq :: "jsnum \<Rightarrow> jsnum \<Rightarrow> bool" where
  "strict_eq a b = (a \<noteq> NaN \<and> b \<noteq> NaN \<and> a = b)"

definition Math_max :: "jsnum \<Rightarrow> jsnum \<Rightarrow> jsnum" where
  "Math_max a b = (if a = NaN \<or> b = NaN then NaN else if a < b then b else a)"

fun Math_sqrt :: "jsnum \<Rightarrow> jsnum" where
  "Math_sqrt (Fin a) = (if a < 0 then NaN else Fin (sqrt a))"
| "Math_sqrt PInf = PInf"
| "Math_sqrt _ = NaN"

text \<open>\<open>a || b\<close> on numbers: \<open>a\<close> when it is truthy, that is neither \<open>NaN\<close> nor zero.\<close>

definition js_or :: "jsnum \<Rightarrow> jsnum \<Rightarrow> jsnum" where
  "js_or a b = (if a = NaN \<or> a = Fin 0 then b else a)"

text \<open>The remainder \<open>a % b\<close>, with the sign of the dividend.\<close>

definition trunc :: "real \<Rightarrow> real" where
  "trunc x = (if 0 \<le> x then of_int \<lfloor>x\<rfloor> else of_int \<lceil>x\<rceil>)"

fun js_rem :: "jsnum \<Rightarrow> jsnum \<Rightarrow> jsnum" where
  "js_rem (Fin a) (Fin b) = (if b = 0 then NaN else Fin (a - b * trunc (a / b)))"
| "js_rem (Fin a) PInf = Fin a"
| "js_rem (Fin a) NInf = Fin a"
| "js_rem _ _ = NaN"


section \<open>The host's built-in functions\<close>

text \<open>
  \<open>parseFloat\<close>, \<open>parseInt\<close>, the printing of a number (\<open>toString\<close>,
  \<open>toFixed\<close>) and \<open>trim\<close> belong to the JavaScript runtime, not to the program.
  They are parameters of the model.
\<close>

record host =
  parseFloat :: "string \<Rightarrow> jsnum"
  parseInt :: "string \<Rightarrow> nat \<Rightarrow> jsnum"
  toString :: "jsnum \<Rightarrow> string"
  toFixed :: "jsnum \<Rightarrow> nat \<Rightarrow> string"
  trim :: "string \<Rightarrow> string"

section \<open>The calculator (App.tsx)\<close>

record vobj =
  start :: jsnum
  width :: jsnum

datatype mode = uniform | desired

record VisualData =
  wallWidth :: jsnum
  objects :: "vobj list"
  mode :: mode
  gapSize :: "jsnum option"
  sideGap :: "jsnum option"
  innerGap :: "jsnum option"

text \<open>
  The seven calls of \<open>setError\<close> in \<open>calculatePositions\<close>, in the order of the source
  (lines 37, 42, 47, 52, 57, 63 and 76). Each stands for the message set there.
\<close>

datatype validation_error =
  InvalidInput | NonPositiveWall | NonPositiveObject | TooFewObjects
  | NegativeSpacing | ObjectsExceedWall | SpacingExceedsWall

text \<open>The component's state. The field \<open>wallWidth\<close> of the source is \<open>wallWidth_in\<close>
  here: \<open>VisualData\<close> has a field of the same name.\<close>

record app_state =
  wallWidth_in :: string
  numObjects :: string
  objectWidth :: string
  desiredSpacing :: string
  results :: "string option"
  visualData :: "VisualData option"
  error :: "validation_error option"

definition formatNumber :: "host \<Rightarrow> jsnum \<Rightarrow> string" where
  "formatNumber h num =
     (if strict_eq (js_rem num (Fin 1)) (Fin 0) then toString h num else toFixed h num 1)"

definition nl :: string where
  "nl = [CHR 0x0A]"

definition span_red :: "string \<Rightarrow> string" where
  "span_red s = ''<span class='' @ [CHR 0x22] @ ''text-red-500 font-bold'' @ [CHR 0x22] @ ''>''
     @ s @ '' cm</span>''"

text \<open>
  The pieces of the report text: the two headers (lines 82-85 and 125-126), the block
  written for an object in the loops (lines 95-98 and 136-139; \<open>n\<close> is the number
  shown, \<open>i + 1\<close>) and the block of the single object (lines 112-115).
\<close>

definition desired_header :: "host \<Rightarrow> jsnum \<Rightarrow> jsnum \<Rightarrow> string" where
  "desired_header h side space =
     ''Spazio laterale (muro-oggetto):'' @ nl
     @ span_red (formatNumber h side) @ nl
     @ ''Spazio tra oggetti (impostato):'' @ nl
     @ span_red (formatNumber h space) @ nl @ nl"

definition uniform_header :: "host \<Rightarrow> jsnum \<Rightarrow> string" where
  "uniform_header h gap =
     ''Dimensione spazio tra oggetti (e tra oggetto e muro):'' @ nl
     @ span_red (formatNumber h gap) @ nl @ nl"

definition object_block :: "host \<Rightarrow> jsnum \<Rightarrow> jsnum \<Rightarrow> jsnum \<Rightarrow> jsnum \<Rightarrow> string" where
  "object_block h n startPos objCenter objEnd =
     ''Oggetto '' @ toString h n @ '':'' @ nl
     @ ''  Inizio a: '' @ formatNumber h startPos @ '' cm'' @ nl
     @ ''  Centro a: '' @ span_red (formatNumber h objCenter) @ nl
     @ ''  Fine a:   '' @ formatNumber h objEnd @ '' cm'' @ nl @ nl"

definition single_block :: "host \<Rightarrow> jsnum \<Rightarrow> jsnum \<Rightarrow> jsnum \<Rightarrow> string" where
  "single_block h startPos objCenter objEnd =
     ''Oggetto 1:'' @ nl
     @ ''  Inizio a: '' @ formatNumber h startPos @ '' cm'' @ nl
     @ ''  Centro a: '' @ span_red (formatNumber h objCenter) @ nl
     @ ''  Fine a:   '' @ formatNumber h objEnd @ '' cm'' @ nl"

text \<open>
  The two \<open>for\<close> loops (lines 88-101 and 129-142). They are the same code; the gap
  added after each object is \<open>space\<close> in the first and \<open>gapSize\<close> in the second.
  The loop runs while \<open>i < numObj\<close>, so it does not end when \<open>numObj\<close> is
  \<open>Infinity\<close>: not returning is the value \<open>None\<close>.
\<close>

partial_function (option) place_loop ::
  "host \<Rightarrow> jsnum \<Rightarrow> jsnum \<Rightarrow> jsnum \<Rightarrow> jsnum \<Rightarrow> jsnum \<Rightarrow> vobj list \<Rightarrow> string
     \<Rightarrow> (vobj list \<times> string) option" where
  "place_loop h numObj objW gap i currentPos visualObjects resultHtml =
     (if i < numObj then
        (let startPos = currentPos;
             objCenter = startPos + (objW / Fin 2);
             objEnd = startPos + objW
         in place_loop h numObj objW gap (i + Fin 1) (objEnd + gap)
              (visualObjects @ [\<lparr>start = startPos, width = objW\<rparr>])
              (resultHtml @ object_block h (i + Fin 1) startPos objCenter objEnd))
      else Some (visualObjects, resultHtml))"

text \<open>
  \<open>calculatePositions\<close> (lines 26-147). The three setters called first clear the
  previous outcome; every \<open>setError ...; return\<close> is a branch that returns the state
  with that error. The result is the state after the handler has run.
\<close>

definition calculatePositions :: "host \<Rightarrow> app_state \<Rightarrow> app_state option" where
  "calculatePositions h st0 =
    (let st = st0\<lparr>error := None, results := None, visualData := None\<rparr>;
         wallW = parseFloat h (wallWidth_in st0);
         numObj = parseInt h (numObjects st0) 10;
         objW = parseFloat h (objectWidth st0);
         space = js_or (parseFloat h (desiredSpacing st0)) (Fin 0)
     in
     if isNaN wallW \<or> isNaN numObj \<or> isNaN objW then Some (st\<lparr>error := Some InvalidInput\<rparr>)
     else if wallW \<le> Fin 0 then Some (st\<lparr>error := Some NonPositiveWall\<rparr>)
     else if objW \<le> Fin 0 then Some (st\<lparr>error := Some NonPositiveObject\<rparr>)
     else if numObj < Fin 1 then Some (st\<lparr>error := Some TooFewObjects\<rparr>)
     else if space < Fin 0 then Some (st\<lparr>error := Some NegativeSpacing\<rparr>)
     else
       (let totalObjectsWidth = numObj * objW in
        if totalObjectsWidth > wallW then Some (st\<lparr>error := Some ObjectsExceedWall\<rparr>)
        else if space > Fin 0 \<and> numObj > Fin 1 then
          (let totalInnerGapsWidth = (numObj - Fin 1) * space;
               totalOccupiedWidth = totalObjectsWidth + totalInnerGapsWidth
           in
           if totalOccupiedWidth > wallW then Some (st\<lparr>error := Some SpacingExceedsWall\<rparr>)
           else
             (let sideGap = (wallW - totalOccupiedWidth) / Fin 2;
                  resultHtml = desired_header h sideGap space
              in
              case place_loop h numObj objW space (Fin 0) sideGap [] resultHtml of
                None \<Rightarrow> None
              | Some (visualObjects, resultHtml') \<Rightarrow>
                  Some (st\<lparr>visualData := Some \<lparr>wallWidth = wallW, objects = visualObjects,
                                mode = desired, gapSize = None, sideGap = Some sideGap,
                                innerGap = Some space\<rparr>,
                            results := Some (trim h resultHtml')\<rparr>)))
        else if strict_eq numObj (Fin 1) then
          (let startPos = (wallW - objW) / Fin 2;
               objCenter = startPos + (objW / Fin 2);
               objEnd = startPos + objW;
               visualObjects = [\<lparr>start = startPos, width = objW\<rparr>];
               resultHtml = single_block h startPos objCenter objEnd;
               sideGapSingle = (wallW - objW) / Fin 2
           in Some (st\<lparr>visualData := Some \<lparr>wallWidth = wallW, objects = visualObjects,
                         mode = desired, gapSize = None, sideGap = Some sideGapSingle,
                         innerGap = Some (Fin 0)\<rparr>,
                       results := Some (trim h resultHtml)\<rparr>))
        else
          (let totalEmptySpace = wallW - totalObjectsWidth;
               numGaps = numObj + Fin 1;
               gapSize = totalEmptySpace / numGaps;
               resultHtml = uniform_header h gapSize
           in
           case place_loop h numObj objW gapSize (Fin 0) gapSize [] resultHtml of
             None \<Rightarrow> None
           | Some (visualObjects, resultHtml') \<Rightarrow>
               Some (st\<lparr>visualData := Some \<lparr>wallWidth = wallW, objects = visualObjects,
                             mode = uniform, gapSize = Some gapSize, sideGap = None,
                             innerGap = None\<rparr>,
                         results := Some (trim h resultHtml')\<rparr>))))"

subsection \<open>Gaps of a layout\<close>

text \<open>
  The gaps of a layout, read off the positions of its objects: from the wall to the first
  object, between consecutive objects, and from the last object to the wall.
\<close>

fun inner_gaps :: "vobj list \<Rightarrow> jsnum list" where
  "inner_gaps (a # b # rest) = (start b - (start a + width a)) # inner_gaps (b # rest)"
| "inner_gaps _ = []"

definition gaps_of :: "jsnum \<Rightarrow> vobj list \<Rightarrow> jsnum list" where
  "gaps_of wall objs =
     (if objs = [] then [wall]
      else start (hd objs) # inner_gaps objs
             @ [wall - (start (last objs) + width (last objs))])"

definition js_sum :: "jsnum list \<Rightarrow> jsnum" where
  "js_sum xs = foldl (+) (Fin 0) xs"

text \<open>The objects that \<open>n\<close> rounds of the loop add, in closed form (used in the proofs).\<close>

primrec objs_from :: "real \<Rightarrow> real \<Rightarrow> real \<Rightarrow> nat \<Rightarrow> vobj list" where
  "objs_from c w g 0 = []"
| "objs_from c w g (Suc n) = \<lparr>start = Fin c, width = Fin w\<rparr> # objs_from (c + w + g) w g n"

text \<open>The layout stored for a request of finite numbers that passes every check, in closed
  form (used in the proofs).\<close>

definition layout_of :: "real \<Rightarrow> nat \<Rightarrow> real \<Rightarrow> real \<Rightarrow> VisualData" where
  "layout_of W n w s =
     (if 0 < s \<and> 1 < n then
        \<lparr>wallWidth = Fin W,
         objects = objs_from ((W - (real n * w + (real n - 1) * s)) / 2) w s n,
         mode = desired, gapSize = None,
         sideGap = Some (Fin ((W - (real n * w + (real n - 1) * s)) / 2)),
         innerGap = Some (Fin s)\<rparr>
      else if n = 1 then
        \<lparr>wallWidth = Fin W, objects = objs_from ((W - w) / 2) w 0 1,
         mode = desired, gapSize = None, sideGap = Some (Fin ((W - w) / 2)),
         innerGap = Some (Fin 0)\<rparr>
      else
        \<lparr>wallWidth = Fin W,
         objects = objs_from ((W - real n * w) / (real n + 1)) w ((W - real n * w) / (real n + 1)) n,
         mode = uniform, gapSize = Some (Fin ((W - real n * w) / (real n + 1))),
         sideGap = None, innerGap = None\<rparr>)"

subsection \<open>A host for the examples\<close>

text \<open>
  The values of \<open>parseFloat\<close> and \<open>parseInt\<close> on the strings of the examples below,
  as JavaScript computes them (for \<open>0.7\<close>, \<open>12.3\<close> and \<open>5.7\<close> the nearest double);
  every other string is taken as unparsable. No example reads
  the report text, so the printing functions return a placeholder and \<open>trim\<close> returns
  its argument.
\<close>

definition table_parseFloat :: "string \<Rightarrow> jsnum" where
  "table_parseFloat s =
     (if s = ''300'' then Fin 300
      else if s = ''100'' then Fin 100
      else if s = ''10.0'' then Fin 10
      else if s = ''10'' then Fin 10
      else if s = ''20'' then Fin 20
      else if s = ''40'' then Fin 40
      else if s = ''90'' then Fin 90
      else if s = ''12.5'' then Fin 12.5
      else if s = ''0'' then Fin 0
      else if s = ''-5'' then Fin (- 5)
      else if s = ''7'' then Fin 7
      else if s = ''1'' then Fin 1
      else if s = ''2'' then Fin 2
      else if s = ''0.7'' then Fin (3152519739159347 / 2 ^ 52)
      else if s = ''12.3'' then Fin (3462142213541069 / 2 ^ 48)
      else if s = ''5.7'' then Fin (6417629469002957 / 2 ^ 50)
      else if s = ''100000000000000000'' then Fin 100000000000000000
      else if s = ''Infinity'' then PInf
      else if s = ''-Infinity'' then NInf
      else NaN)"

definition table_parseInt :: "string \<Rightarrow> nat \<Rightarrow> jsnum" where
  "table_parseInt s radix =
     (if radix \<noteq> 10 then NaN
      else if s = ''1'' then Fin 1
      else if s = ''2'' then Fin 2
      else if s = ''3'' then Fin 3
      else if s = ''4'' then Fin 4
      else if s = ''10'' then Fin 10
      else NaN)"

definition table_host :: host where
  "table_host = \<lparr>parseFloat = table_parseFloat, parseInt = table_parseInt,
     toString = (\<lambda>_. ''#''), toFixed = (\<lambda>_ _. ''#''), trim = (\<lambda>s. s)\<rparr>"

definition request :: "string \<Rightarrow> string \<Rightarrow> string \<Rightarrow> string \<Rightarrow> app_state" where
  "request wall count obj spacing =
     \<lparr>wallWidth_in = wall, numObjects = count, objectWidth = obj, desiredSpacing = spacing,
      results = None, visualData = None, error = None\<rparr>"

section \<open>The diagram (Visualization.tsx)\<close>

text \<open>
  The component's state: the React state \<open>containerWidth\<close>, \<open>transform\<close> and
  \<open>isPanning\<close>, and the three refs. An event handler is a function from the state in
  which it runs to the state after it; events are handled one at a time, each in the state
  the previous one left. The coordinates and deltas that the browser puts into an event
  are finite numbers, so they are reals here.
\<close>

record Transform =
  scale :: jsnum
  translateX :: jsnum
  translateY :: jsnum

record view_state =
  containerWidth :: jsnum
  transform :: Transform
  isPanning :: bool
  startPanPointRef :: "jsnum \<times> jsnum"
  startTransformRef :: Transform
  initialPinchDistanceRef :: jsnum

definition initial_transform :: Transform where
  "initial_transform = \<lparr>scale = Fin 1, translateX = Fin 0, translateY = Fin 0\<rparr>"

definition initial_view :: view_state where
  "initial_view = \<lparr>containerWidth = Fin 0, transform = initial_transform, isPanning = False,
     startPanPointRef = (Fin 0, Fin 0), startTransformRef = initial_transform,
     initialPinchDistanceRef = Fin 0\<rparr>"

definition resetView :: "view_state \<Rightarrow> view_state" where
  "resetView vs = vs\<lparr>transform := \<lparr>scale = Fin 1, translateX = Fin 0, translateY = Fin 0\<rparr>\<rparr>"

text \<open>The callback of the \<open>ResizeObserver\<close> (lines 30-35); an entry is its
  \<open>contentRect.width\<close>.\<close>

definition handleResize :: "real list \<Rightarrow> view_state \<Rightarrow> view_state" where
  "handleResize entries vs =
     (case entries of
        [] \<Rightarrow> vs
      | w # _ \<Rightarrow> if Fin w > Fin 0 then resetView (vs\<lparr>containerWidth := Fin w\<rparr>) else vs)"

text \<open>\<open>handleWheel\<close> (lines 44-57). The arguments are \<open>e.deltaY\<close>, \<open>e.clientX\<close>,
  \<open>e.clientY\<close> and the \<open>left\<close> and \<open>top\<close> of the bounding rectangle.\<close>

definition handleWheel :: "real \<Rightarrow> real \<Rightarrow> real \<Rightarrow> real \<Rightarrow> real \<Rightarrow> view_state \<Rightarrow> view_state" where
  "handleWheel deltaY clientX clientY rectLeft rectTop vs =
     (let scaleAmount = - Fin deltaY * Fin 0.001;
          mouseX = Fin clientX - Fin rectLeft;
          mouseY = Fin clientY - Fin rectTop;
          prev = transform vs;
          newScale = Math_max (Fin 1) (scale prev + scaleAmount);
          newTranslateX = mouseX - (mouseX - translateX prev) * (newScale / scale prev);
          newTranslateY = mouseY - (mouseY - translateY prev) * (newScale / scale prev)
      in vs\<lparr>transform :=
              \<lparr>scale = newScale, translateX = newTranslateX, translateY = newTranslateY\<rparr>\<rparr>)"

definition handleMouseDown :: "real \<Rightarrow> real \<Rightarrow> view_state \<Rightarrow> view_state" where
  "handleMouseDown clientX clientY vs =
     vs\<lparr>isPanning := True, startPanPointRef := (Fin clientX, Fin clientY),
        startTransformRef := transform vs\<rparr>"

definition handleMouseMove :: "real \<Rightarrow> real \<Rightarrow> view_state \<Rightarrow> view_state" where
  "handleMouseMove clientX clientY vs =
     (if \<not> isPanning vs then vs
      else
        (let dx = Fin clientX - fst (startPanPointRef vs);
             dy = Fin clientY - snd (startPanPointRef vs)
         in vs\<lparr>transform := (transform vs)
                 \<lparr>translateX := translateX (startTransformRef vs) + dx,
                  translateY := translateY (startTransformRef vs) + dy\<rparr>\<rparr>))"

definition handleMouseUpOrLeave :: "view_state \<Rightarrow> view_state" where
  "handleMouseUpOrLeave vs = (if isPanning vs then vs\<lparr>isPanning := False\<rparr> else vs)"

text \<open>The touch handlers (lines 86-132). A touch is the pair of its \<open>clientX\<close> and
  \<open>clientY\<close>; the tests on \<open>e.touches.length\<close> are the patterns on the list.\<close>

definition handleTouchStart :: "(real \<times> real) list \<Rightarrow> view_state \<Rightarrow> view_state" where
  "handleTouchStart touches vs =
     (case touches of
        [(x0, y0)] \<Rightarrow>
          vs\<lparr>isPanning := True, startPanPointRef := (Fin x0, Fin y0),
             startTransformRef := transform vs\<rparr>
      | [(x0, y0), (x1, y1)] \<Rightarrow>
          (let dx = Fin x0 - Fin x1;
               dy = Fin y0 - Fin y1
           in vs\<lparr>isPanning := False,
                 initialPinchDistanceRef := Math_sqrt (dx * dx + dy * dy),
                 startTransformRef := transform vs\<rparr>)
      | _ \<Rightarrow> vs)"

text \<open>The zoom branch of \<open>handleTouchMove\<close> (lines 112-125).\<close>

definition pinch :: "real \<Rightarrow> real \<Rightarrow> real \<Rightarrow> real \<Rightarrow> real \<Rightarrow> real \<Rightarrow> view_state \<Rightarrow> view_state" where
  "pinch x0 y0 x1 y1 rectLeft rectTop vs =
     (let dx = Fin x0 - Fin x1;
          dy = Fin y0 - Fin y1;
          currentPinchDistance = Math_sqrt (dx * dx + dy * dy);
          scaleMultiplier = currentPinchDistance / initialPinchDistanceRef vs;
          newScale = Math_max (Fin 1) (scale (startTransformRef vs) * scaleMultiplier);
          midX = (Fin x0 + Fin x1) / Fin 2 - Fin rectLeft;
          midY = (Fin y0 + Fin y1) / Fin 2 - Fin rectTop;
          newTranslateX = midX - (midX - translateX (startTransformRef vs))
                            * (newScale / scale (startTransformRef vs));
          newTranslateY = midY - (midY - translateY (startTransformRef vs))
                            * (newScale / scale (startTransformRef vs))
      in vs\<lparr>transform :=
              \<lparr>scale = newScale, translateX = newTranslateX, translateY = newTranslateY\<rparr>\<rparr>)"

definition handleTouchMove :: "(real \<times> real) list \<Rightarrow> real \<Rightarrow> real \<Rightarrow> view_state \<Rightarrow> view_state" where
  "handleTouchMove touches rectLeft rectTop vs =
     (case touches of
        [(x0, y0)] \<Rightarrow>
          if isPanning vs then
            (let dx = Fin x0 - fst (startPanPointRef vs);
                 dy = Fin y0 - snd (startPanPointRef vs)
             in vs\<lparr>transform := (transform vs)
                     \<lparr>translateX := translateX (startTransformRef vs) + dx,
                      translateY := translateY (startTransformRef vs) + dy\<rparr>\<rparr>)
          else vs
      | [(x0, y0), (x1, y1)] \<Rightarrow>
          if initialPinchDistanceRef vs > Fin 0 then pinch x0 y0 x1 y1 rectLeft rectTop vs
          else vs
      | _ \<Rightarrow> vs)"

definition handleTouchEnd :: "view_state \<Rightarrow> view_state" where
  "handleTouchEnd vs = vs\<lparr>isPanning := False, initialPinchDistanceRef := Fin 0\<rparr>"

text \<open>The events of the component, each with the handler it is bound to (lines 179,
  197-205 and the resize observer), and a run of the component over a list of events.\<close>

datatype event =
  Wheel real real real real real
  | MouseDown real real
  | MouseMove real real
  | MouseUp
  | MouseLeave
  | TouchStart "(real \<times> real) list"
  | TouchMove "(real \<times> real) list" real real
  | TouchEnd
  | TouchCancel
  | ResetClick
  | Resize "real list"

fun handle :: "event \<Rightarrow> view_state \<Rightarrow> view_state" where
  "handle (Wheel deltaY clientX clientY rectLeft rectTop) vs =
     handleWheel deltaY clientX clientY rectLeft rectTop vs"
| "handle (MouseDown clientX clientY) vs = handleMouseDown clientX clientY vs"
| "handle (MouseMove clientX clientY) vs = handleMouseMove clientX clientY vs"
| "handle MouseUp vs = handleMouseUpOrLeave vs"
| "handle MouseLeave vs = handleMouseUpOrLeave vs"
| "handle (TouchStart touches) vs = handleTouchStart touches vs"
| "handle (TouchMove touches rectLeft rectTop) vs = handleTouchMove touches rectLeft rectTop vs"
| "handle TouchEnd vs = handleTouchEnd vs"
| "handle TouchCancel vs = handleTouchEnd vs"
| "handle ResetClick vs = resetView vs"
| "handle (Resize entries) vs = handleResize entries vs"

definition run :: "event list \<Rightarrow> view_state \<Rightarrow> view_state" where
  "run evs vs = foldl (\<lambda>s e. handle e s) vs evs"

text \<open>
  The diagram is drawn under \<open>translate(translateX, translateY) scale(scale)\<close> (line
  214). The point of the diagram that is shown at a position of the screen is found by
  the inverse of that transform.
\<close>

definition inverse_x :: "Transform \<Rightarrow> jsnum \<Rightarrow> jsnum" where
  "inverse_x tr sx = (sx - translateX tr) / scale tr"

definition inverse_y :: "Transform \<Rightarrow> jsnum \<Rightarrow> jsnum" where
  "inverse_y tr sy = (sy - translateY tr) / scale tr"


text \<open>The invariant of the state that the handlers keep: every number in it is finite and
  the two scales are at least 1.\<close>

fun finite_num :: "jsnum \<Rightarrow> bool" where
  "finite_num (Fin a) = True"
| "finite_num _ = False"

definition transform_ok :: "Transform \<Rightarrow> bool" where
  "transform_ok tr =
     (Fin 1 \<le> scale tr \<and> finite_num (scale tr) \<and> finite_num (translateX tr)
      \<and> finite_num (translateY tr))"

definition view_inv :: "view_state \<Rightarrow> bool" where
  "view_inv vs =
     (transform_ok (transform vs) \<and> transform_ok (startTransformRef vs)
      \<and> finite_num (initialPinchDistanceRef vs)
      \<and> finite_num (fst (startPanPointRef vs)) \<and> finite_num (snd (startPanPointRef vs)))"


section \<open>Double arithmetic\<close>

text \<open>
  The definitions above compute with exact reals. A JavaScript number is an IEEE 754
  binary64 value: every arithmetic operation returns the double nearest to the exact
  result, ties going to the even significand, and a result of magnitude \<open>2 ^ 1024\<close> or
  more after rounding is an infinity. \<open>expo\<close> is the exponent of the binade of \<open>x\<close> (no
  less than \<open>- 1022\<close>, where the subnormal numbers begin), \<open>ulp\<close> the distance between
  neighbouring doubles there, \<open>nearest\<close> the rounding with an unbounded exponent and
  \<open>fl\<close> the rounding to a double. As before there is a single zero.
\<close>

definition expo :: "real \<Rightarrow> int" where
  "expo x = (if x = 0 then - 1022 else max \<lfloor>log 2 \<bar>x\<bar>\<rfloor> (- 1022))"

definition ulp :: "real \<Rightarrow> real" where
  "ulp x = 2 powi (expo x - 52)"

definition round_even :: "real \<Rightarrow> int" where
  "round_even y =
     (let f = \<lfloor>y\<rfloor>; d = y - of_int f
      in if d < 1 / 2 then f else if 1 / 2 < d then f + 1 else if even f then f else f + 1)"

definition nearest :: "real \<Rightarrow> real" where
  "nearest x = of_int (round_even (x / ulp x)) * ulp x"

definition overflow_bound :: real where
  "overflow_bound = 2 ^ 1024"

definition fl :: "real \<Rightarrow> jsnum" where
  "fl x =
     (let r = nearest x
      in if overflow_bound \<le> r then PInf
         else if r \<le> - overflow_bound then NInf else Fin r)"

definition is_double :: "real \<Rightarrow> bool" where
  "is_double r = (fl r = Fin r)"

text \<open>A double that is not negative, or \<open>Infinity\<close> (used in the proofs).\<close>

definition nonneg_double :: "jsnum \<Rightarrow> bool" where
  "nonneg_double c = (case c of Fin r \<Rightarrow> is_double r \<and> 0 \<le> r | PInf \<Rightarrow> True | _ \<Rightarrow> False)"

text \<open>The operations of the language on doubles: the exact result, rounded. The special
  values pass through unchanged.\<close>

fun rnd :: "jsnum \<Rightarrow> jsnum" where
  "rnd (Fin r) = fl r"
| "rnd a = a"

definition fadd :: "jsnum \<Rightarrow> jsnum \<Rightarrow> jsnum" where
  "fadd a b = rnd (a + b)"

definition fsub :: "jsnum \<Rightarrow> jsnum \<Rightarrow> jsnum" where
  "fsub a b = rnd (a - b)"

definition fmul :: "jsnum \<Rightarrow> jsnum \<Rightarrow> jsnum" where
  "fmul a b = rnd (a * b)"

definition fdiv :: "jsnum \<Rightarrow> jsnum \<Rightarrow> jsnum" where
  "fdiv a b = rnd (a / b)"

definition fsqrt :: "jsnum \<Rightarrow> jsnum" where
  "fsqrt a = rnd (Math_sqrt a)"

text \<open>The literal \<open>0.001\<close> of the source is the double nearest to 1/1000.\<close>

definition lit_0_001 :: jsnum where
  "lit_0_001 = Fin (1152921504606847 / 2 ^ 60)"

subsection \<open>The calculator in double arithmetic\<close>

text \<open>
  \<open>calculatePositions\<close> and its loops once more, line by line as above, with every
  \<open>+\<close>, \<open>-\<close>, \<open>*\<close> and \<open>/\<close> of the source rounded. The comparisons, \<open>isNaN\<close>,
  \<open>||\<close>, \<open>===\<close> and \<open>%\<close> are exact on doubles and are the ones above.
\<close>

partial_function (option) place_loop_fp ::
  "host \<Rightarrow> jsnum \<Rightarrow> jsnum \<Rightarrow> jsnum \<Rightarrow> jsnum \<Rightarrow> jsnum \<Rightarrow> vobj list \<Rightarrow> string
     \<Rightarrow> (vobj list \<times> string) option" where
  "place_loop_fp h numObj objW gap i currentPos visualObjects resultHtml =
     (if i < numObj then
        (let startPos = currentPos;
             objCenter = fadd startPos (fdiv objW (Fin 2));
             objEnd = fadd startPos objW
         in place_loop_fp h numObj objW gap (fadd i (Fin 1)) (fadd objEnd gap)
              (visualObjects @ [\<lparr>start = startPos, width = objW\<rparr>])
              (resultHtml @ object_block h (fadd i (Fin 1)) startPos objCenter objEnd))
      else Some (visualObjects, resultHtml))"

definition calculatePositions_fp :: "host \<Rightarrow> app_state \<Rightarrow> app_state option" where
  "calculatePositions_fp h st0 =
    (let st = st0\<lparr>error := None, results := None, visualData := None\<rparr>;
         wallW = parseFloat h (wallWidth_in st0);
         numObj = parseInt h (numObjects st0) 10;
         objW = parseFloat h (objectWidth st0);
         space = js_or (parseFloat h (desiredSpacing st0)) (Fin 0)
     in
     if isNaN wallW \<or> isNaN numObj \<or> isNaN objW then Some (st\<lparr>error := Some InvalidInput\<rparr>)
     else if wallW \<le> Fin 0 then Some (st\<lparr>error := Some NonPositiveWall\<rparr>)
     else if objW \<le> Fin 0 then Some (st\<lparr>error := Some NonPositiveObject\<rparr>)
     else if numObj < Fin 1 then Some (st\<lparr>error := Some TooFewObjects\<rparr>)
     else if space < Fin 0 then Some (st\<lparr>error := Some NegativeSpacing\<rparr>)
     else
       (let totalObjectsWidth = fmul numObj objW in
        if totalObjectsWidth > wallW then Some (st\<lparr>error := Some ObjectsExceedWall\<rparr>)
        else if space > Fin 0 \<and> numObj > Fin 1 then
          (let totalInnerGapsWidth = fmul (fsub numObj (Fin 1)) space;
               totalOccupiedWidth = fadd totalObjectsWidth totalInnerGapsWidth
           in
           if totalOccupiedWidth > wallW then Some (st\<lparr>error := Some SpacingExceedsWall\<rparr>)
           else
             (let sideGap = fdiv (fsub wallW totalOccupiedWidth) (Fin 2);
                  resultHtml = desired_header h sideGap space
              in
              case place_loop_fp h numObj objW space (Fin 0) sideGap [] resultHtml of
                None \<Rightarrow> None
              | Some (visualObjects, resultHtml') \<Rightarrow>
                  Some (st\<lparr>visualData := Some \<lparr>wallWidth = wallW, objects = visualObjects,
                                mode = desired, gapSize = None, sideGap = Some sideGap,
                                innerGap = Some space\<rparr>,
                            results := Some (trim h resultHtml')\<rparr>)))
        else if strict_eq numObj (Fin 1) then
          (let startPos = fdiv (fsub wallW objW) (Fin 2);
               objCenter = fadd startPos (fdiv objW (Fin 2));
               objEnd = fadd startPos objW;
               visualObjects = [\<lparr>start = startPos, width = objW\<rparr>];
               resultHtml = single_block h startPos objCenter objEnd;
               sideGapSingle = fdiv (fsub wallW objW) (Fin 2)
           in Some (st\<lparr>visualData := Some \<lparr>wallWidth = wallW, objects = visualObjects,
                         mode = desired, gapSize = None, sideGap = Some sideGapSingle,
                         innerGap = Some (Fin 0)\<rparr>,
                       results := Some (trim h resultHtml)\<rparr>))
        else
          (let totalEmptySpace = fsub wallW totalObjectsWidth;
               numGaps = fadd numObj (Fin 1);
               gapSize = fdiv totalEmptySpace numGaps;
               resultHtml = uniform_header h gapSize
           in
           case place_loop_fp h numObj objW gapSize (Fin 0) gapSize [] resultHtml of
             None \<Rightarrow> None
           | Some (visualObjects, resultHtml') \<Rightarrow>
               Some (st\<lparr>visualData := Some \<lparr>wallWidth = wallW, objects = visualObjects,
                             mode = uniform, gapSize = Some gapSize, sideGap = None,
                             innerGap = None\<rparr>,
                         results := Some (trim h resultHtml')\<rparr>))))"

text \<open>The objects that \<open>n\<close> rounds of the loop add, starting at \<open>c\<close> (used in the
  proofs).\<close>

primrec placed :: "jsnum \<Rightarrow> jsnum \<Rightarrow> jsnum \<Rightarrow> nat \<Rightarrow> vobj list" where
  "placed c w g 0 = []"
| "placed c w g (Suc n) = \<lparr>start = c, width = w\<rparr> # placed (fadd (fadd c w) g) w g n"

text \<open>The layout stored for a request with \<open>n\<close> objects that passes every check, in
  terms of the parsed numbers (used in the proofs).\<close>

definition layout_fp :: "jsnum \<Rightarrow> nat \<Rightarrow> jsnum \<Rightarrow> jsnum \<Rightarrow> VisualData" where
  "layout_fp W n w s =
     (if Fin 0 < s \<and> 1 < n then
        (let side = fdiv (fsub W (fadd (fmul (Fin (real n)) w)
                                       (fmul (fsub (Fin (real n)) (Fin 1)) s))) (Fin 2)
         in \<lparr>wallWidth = W, objects = placed side w s n, mode = desired, gapSize = None,
             sideGap = Some side, innerGap = Some s\<rparr>)
      else if n = 1 then
        \<lparr>wallWidth = W, objects = placed (fdiv (fsub W w) (Fin 2)) w (Fin 0) 1,
         mode = desired, gapSize = None, sideGap = Some (fdiv (fsub W w) (Fin 2)),
         innerGap = Some (Fin 0)\<rparr>
      else
        (let gap = fdiv (fsub W (fmul (Fin (real n)) w)) (fadd (Fin (real n)) (Fin 1))
         in \<lparr>wallWidth = W, objects = placed gap w gap n, mode = uniform,
             gapSize = Some gap, sideGap = None, innerGap = None\<rparr>))"

text \<open>The gaps of a layout as a program computes them from the positions, each
  difference rounded.\<close>

fun inner_gaps_fp :: "vobj list \<Rightarrow> jsnum list" where
  "inner_gaps_fp (a # b # rest) = fsub (start b) (fadd (start a) (width a)) # inner_gaps_fp (b # rest)"
| "inner_gaps_fp _ = []"

definition gaps_fp :: "jsnum \<Rightarrow> vobj list \<Rightarrow> jsnum list" where
  "gaps_fp wall objs =
     (if objs = [] then [wall]
      else start (hd objs) # inner_gaps_fp objs
             @ [fsub wall (fadd (start (last objs)) (width (last objs)))])"

subsection \<open>The diagram in double arithmetic\<close>

text \<open>The handlers that compute, with their operations rounded. The coordinates of an
  event are doubles.\<close>

definition handleWheel_fp :: "real \<Rightarrow> real \<Rightarrow> real \<Rightarrow> real \<Rightarrow> real \<Rightarrow> view_state \<Rightarrow> view_state" where
  "handleWheel_fp deltaY clientX clientY rectLeft rectTop vs =
     (let scaleAmount = fmul (- Fin deltaY) lit_0_001;
          mouseX = fsub (Fin clientX) (Fin rectLeft);
          mouseY = fsub (Fin clientY) (Fin rectTop);
          prev = transform vs;
          newScale = Math_max (Fin 1) (fadd (scale prev) scaleAmount);
          newTranslateX = fsub mouseX (fmul (fsub mouseX (translateX prev)) (fdiv newScale (scale prev)));
          newTranslateY = fsub mouseY (fmul (fsub mouseY (translateY prev)) (fdiv newScale (scale prev)))
      in vs\<lparr>transform :=
              \<lparr>scale = newScale, translateX = newTranslateX, translateY = newTranslateY\<rparr>\<rparr>)"

definition handleMouseMove_fp :: "real \<Rightarrow> real \<Rightarrow> view_state \<Rightarrow> view_state" where
  "handleMouseMove_fp clientX clientY vs =
     (if \<not> isPanning vs then vs
      else
        (let dx = fsub (Fin clientX) (fst (startPanPointRef vs));
             dy = fsub (Fin clientY) (snd (startPanPointRef vs))
         in vs\<lparr>transform := (transform vs)
                 \<lparr>translateX := fadd (translateX (startTransformRef vs)) dx,
                  translateY := fadd (translateY (startTransformRef vs)) dy\<rparr>\<rparr>))"

definition handleTouchStart_fp :: "(real \<times> real) list \<Rightarrow> view_state \<Rightarrow> view_state" where
  "handleTouchStart_fp touches vs =
     (case touches of
        [(x0, y0)] \<Rightarrow>
          vs\<lparr>isPanning := True, startPanPointRef := (Fin x0, Fin y0),
             startTransformRef := transform vs\<rparr>
      | [(x0, y0), (x1, y1)] \<Rightarrow>
          (let dx = fsub (Fin x0) (Fin x1);
               dy = fsub (Fin y0) (Fin y1)
           in vs\<lparr>isPanning := False,
                 initialPinchDistanceRef := fsqrt (fadd (fmul dx dx) (fmul dy dy)),
                 startTransformRef := transform vs\<rparr>)
      | _ \<Rightarrow> vs)"

definition pinch_fp :: "real \<Rightarrow> real \<Rightarrow> real \<Rightarrow> real \<Rightarrow> real \<Rightarrow> real \<Rightarrow> view_state \<Rightarrow> view_state" where
  "pinch_fp x0 y0 x1 y1 rectLeft rectTop vs =
     (let dx = fsub (Fin x0) (Fin x1);
          dy = fsub (Fin y0) (Fin y1);
          currentPinchDistance = fsqrt (fadd (fmul dx dx) (fmul dy dy));
          scaleMultiplier = fdiv currentPinchDistance (initialPinchDistanceRef vs);
          newScale = Math_max (Fin 1) (fmul (scale (startTransformRef vs)) scaleMultiplier);
          midX = fsub (fdiv (fadd (Fin x0) (Fin x1)) (Fin 2)) (Fin rectLeft);
          midY = fsub (fdiv (fadd (Fin y0) (Fin y1)) (Fin 2)) (Fin rectTop);
          newTranslateX = fsub midX (fmul (fsub midX (translateX (startTransformRef vs)))
                            (fdiv newScale (scale (startTransformRef vs))));
          newTranslateY = fsub midY (fmul (fsub midY (translateY (startTransformRef vs)))
                            (fdiv newScale (scale (startTransformRef vs))))
      in vs\<lparr>transform :=
              \<lparr>scale = newScale, translateX = newTranslateX, translateY = newTranslateY\<rparr>\<rparr>)"

definition handleTouchMove_fp :: "(real \<times> real) list \<Rightarrow> real \<Rightarrow> real \<Rightarrow> view_state \<Rightarrow> view_state" where
  "handleTouchMove_fp touches rectLeft rectTop vs =
     (case touches of
        [(x0, y0)] \<Rightarrow>
          if isPanning vs then
            (let dx = fsub (Fin x0) (fst (startPanPointRef vs));
                 dy = fsub (Fin y0) (snd (startPanPointRef vs))
             in vs\<lparr>transform := (transform vs)
                     \<lparr>translateX := fadd (translateX (startTransformRef vs)) dx,
                      translateY := fadd (translateY (startTransformRef vs)) dy\<rparr>\<rparr>)
          else vs
      | [(x0, y0), (x1, y1)] \<Rightarrow>
          if initialPinchDistanceRef vs > Fin 0 then pinch_fp x0 y0 x1 y1 rectLeft rectTop vs
          else vs
      | _ \<Rightarrow> vs)"

fun handle_fp :: "event \<Rightarrow> view_state \<Rightarrow> view_state" where
  "handle_fp (Wheel deltaY clientX clientY rectLeft rectTop) vs =
     handleWheel_fp deltaY clientX clientY rectLeft rectTop vs"
| "handle_fp (MouseDown clientX clientY) vs = handleMouseDown clientX clientY vs"
| "handle_fp (MouseMove clientX clientY) vs = handleMouseMove_fp clientX clientY vs"
| "handle_fp MouseUp vs = handleMouseUpOrLeave vs"
| "handle_fp MouseLeave vs = handleMouseUpOrLeave vs"
| "handle_fp (TouchStart touches) vs = handleTouchStart_fp touches vs"
| "handle_fp (TouchMove touches rectLeft rectTop) vs = handleTouchMove_fp touches rectLeft rectTop vs"
| "handle_fp TouchEnd vs = handleTouchEnd vs"
| "handle_fp TouchCancel vs = handleTouchEnd vs"
| "handle_fp ResetClick vs = resetView vs"
| "handle_fp (Resize entries) vs = handleResize entries vs"

definition run_fp :: "event list \<Rightarrow> view_state \<Rightarrow> view_state" where
  "run_fp evs vs = foldl (\<lambda>s e. handle_fp e s) vs evs"

text \<open>The inverse of the drawing transform, computed in doubles.\<close>

definition inverse_x_fp :: "Transform \<Rightarrow> jsnum \<Rightarrow> jsnum" where
  "inverse_x_fp tr sx = fdiv (fsub sx (translateX tr)) (scale tr)"

definition inverse_y_fp :: "Transform \<Rightarrow> jsnum \<Rightarrow> jsnum" where
  "inverse_y_fp tr sy = fdiv (fsub sy (translateY tr)) (scale tr)"

section \<open>Properties of the calculator\<close>

lemma Fin_minus [simp]: "Fin a - Fin b = Fin (a - b)"
  by (simp add: minus_jsnum_def)

lemma Fin_le [simp]: "Fin a \<le> Fin b \<longleftrightarrow> a \<le> b"
  by (auto simp: less_eq_jsnum_def)

lemma place_loop_fin:
  "k \<le> n \<Longrightarrow> \<exists>html'. place_loop h (Fin (real n)) (Fin w) (Fin g) (Fin (real k)) (Fin c) acc html
      = Some (acc @ objs_from c w g (n - k), html')"
proof (induction "n - k" arbitrary: k c acc html)
  case 0
  then have "k = n" by simp
  then show ?case by (subst place_loop.simps) simp
next
  case (Suc m)
  then have lt: "k < n" and m: "m = n - Suc k" and le: "Suc k \<le> n" by simp_all
  have nk: "n - k = Suc (n - Suc k)" using lt by simp
  have r: "real k + 1 = real (Suc k)" by simp
  have "\<exists>html'. place_loop h (Fin (real n)) (Fin w) (Fin g) (Fin (real (Suc k))) (Fin (c + w + g))
       (acc @ [\<lparr>start = Fin c, width = Fin w\<rparr>]) H
     = Some ((acc @ [\<lparr>start = Fin c, width = Fin w\<rparr>]) @ objs_from (c + w + g) w g (n - Suc k), html')"
    for H
    using Suc.hyps(1)[OF m le] by blast
  then show ?case
    apply (subst place_loop.simps)
    apply (simp only: nk objs_from.simps)
    using lt by (simp add: Let_def r del: of_nat_Suc)
qed

lemma place_loop_returns:
  "\<exists>res. place_loop h (Fin r) objW gap (Fin x) cur acc html = Some res"
proof (induction "nat \<lceil>r - x\<rceil>" arbitrary: x cur acc html)
  case 0
  then have "\<not> x < r" by (simp add: ceiling_le_zero)
  then show ?case by (subst place_loop.simps) simp
next
  case (Suc m)
  have "m = nat \<lceil>r - (x + 1)\<rceil>" using Suc.hyps(2) by linarith
  then have "\<exists>res. place_loop h (Fin r) objW gap (Fin (x + 1)) C A H = Some res" for C A H
    using Suc.hyps(1) by blast
  then show ?case
    by (subst place_loop.simps) (simp add: Let_def)
qed

lemma place_loop_returns':
  "numObj \<noteq> PInf \<Longrightarrow> \<exists>res. place_loop h numObj objW gap (Fin x) cur acc html = Some res"
proof (cases numObj)
  case (Fin r) then show ?thesis using place_loop_returns by simp
qed (subst place_loop.simps, simp)+

lemma length_objs_from [simp]: "length (objs_from c w g n) = n"
  by (induction n arbitrary: c) simp_all

lemma objs_from_Nil [simp]: "objs_from c w g n = [] \<longleftrightarrow> n = 0"
  by (cases n) simp_all

lemma objs_from_nth: "i < n \<Longrightarrow> objs_from c w g n ! i = \<lparr>start = Fin (c + real i * (w + g)), width = Fin w\<rparr>"
proof (induction n arbitrary: c i)
  case 0 then show ?case by simp
next
  case (Suc n)
  show ?case
  proof (cases i)
    case 0 then show ?thesis by simp
  next
    case (Suc j)
    then have "j < n" using Suc.prems by simp
    from Suc.IH[OF this, of "c + w + g"] show ?thesis using Suc by (simp add: algebra_simps)
  qed
qed

lemma widths_objs_from: "map width (objs_from c w g n) = replicate n (Fin w)"
  by (induction n arbitrary: c) simp_all

lemma inner_gaps_objs_from: "inner_gaps (objs_from c w g n) = replicate (n - 1) (Fin g)"
proof (induction n arbitrary: c)
  case 0 show ?case by simp
next
  case (Suc n)
  show ?case
  proof (cases n)
    case 0 then show ?thesis by simp
  next
    case (Suc m)
    have "inner_gaps (objs_from (c + w + g) w g (Suc m)) = replicate m (Fin g)"
      using Suc.IH[of "c + w + g"] Suc by simp
    then show ?thesis using Suc by simp
  qed
qed

lemma hd_objs_from: "0 < n \<Longrightarrow> hd (objs_from c w g n) = \<lparr>start = Fin c, width = Fin w\<rparr>"
  by (cases n) simp_all

lemma last_objs_from:
  "0 < n \<Longrightarrow> last (objs_from c w g n) = \<lparr>start = Fin (c + real (n - 1) * (w + g)), width = Fin w\<rparr>"
  using objs_from_nth[of "n - 1" n c w g] by (simp add: last_conv_nth)

lemma gaps_of_objs_from:
  "0 < n \<Longrightarrow> gaps_of (Fin W) (objs_from c w g n)
     = Fin c # replicate (n - 1) (Fin g) @ [Fin (W - (c + real (n - 1) * (w + g) + w))]"
  by (simp add: gaps_of_def hd_objs_from last_objs_from inner_gaps_objs_from)

lemma foldl_plus_Fin: "foldl (+) (Fin a) (map Fin xs) = Fin (a + sum_list xs)"
  by (induction xs arbitrary: a) (simp_all add: add.assoc)

lemma js_sum_Fin: "js_sum (map Fin xs) = Fin (sum_list xs)"
  by (simp add: js_sum_def foldl_plus_Fin)

lemma js_sum_gaps:
  assumes "0 < n"
  shows "js_sum (gaps_of (Fin W) (objs_from c w g n)) + js_sum (map width (objs_from c w g n)) = Fin W"
proof -
  have g: "gaps_of (Fin W) (objs_from c w g n)
     = map Fin (c # replicate (n - 1) g @ [W - (c + real (n - 1) * (w + g) + w)])"
    using assms by (simp add: gaps_of_objs_from)
  have w: "map width (objs_from c w g n) = map Fin (replicate n w)"
    by (simp add: widths_objs_from)
  have "real (n - 1) = real n - 1" using assms by (simp add: of_nat_diff)
  then show ?thesis
    unfolding g w js_sum_Fin by (simp add: sum_list_replicate algebra_simps)
qed


lemma place_loop_fin0:
  "\<exists>html'. place_loop h (Fin (real n)) (Fin w) (Fin g) (Fin 0) (Fin c) [] html
      = Some (objs_from c w g n, html')"
  using place_loop_fin[of 0 n h w g c "[]" html] by simp

lemma calc_ok:
  assumes W: "parseFloat h (wallWidth_in st) = Fin W"
    and n: "parseInt h (numObjects st) 10 = Fin (real n)"
    and w: "parseFloat h (objectWidth st) = Fin w"
    and s: "js_or (parseFloat h (desiredSpacing st)) (Fin 0) = Fin s"
    and ret: "calculatePositions h st = Some st'"
    and ok: "error st' = None"
  shows "0 < W \<and> 0 < w \<and> 1 \<le> n \<and> 0 \<le> s \<and> real n * w \<le> W
     \<and> (if 0 < s \<and> 1 < n then real n * w + (real n - 1) * s \<le> W else True)
     \<and> (\<exists>txt. st' = st\<lparr>error := None, visualData := Some (layout_of W n w s),
                             results := Some txt\<rparr>)"
proof -
  obtain h1 where L1: "place_loop h (Fin (real n)) (Fin w) (Fin s) (Fin 0)
       (Fin ((W - (real n * w + (real n - 1) * s)) / 2)) []
       (desired_header h (Fin ((W - (real n * w + (real n - 1) * s)) / 2)) (Fin s))
     = Some (objs_from ((W - (real n * w + (real n - 1) * s)) / 2) w s n, h1)"
    using place_loop_fin0 by blast
  obtain h2 where L2: "place_loop h (Fin (real n)) (Fin w) (Fin ((W - real n * w) / (real n + 1))) (Fin 0)
       (Fin ((W - real n * w) / (real n + 1))) []
       (uniform_header h (Fin ((W - real n * w) / (real n + 1))))
     = Some (objs_from ((W - real n * w) / (real n + 1)) w ((W - real n * w) / (real n + 1)) n, h2)"
    using place_loop_fin0 by blast
  have n1: "real n + 1 \<noteq> 0" by (simp add: add_nonneg_eq_0_iff)
  show ?thesis
    using ret ok L1 L2 n1
    by (auto simp add: calculatePositions_def W n w s Let_def isNaN_def strict_eq_def layout_of_def
        split: if_splits)
qed

lemma calc_valid:
  assumes W: "parseFloat h (wallWidth_in st) = Fin W"
    and n: "parseInt h (numObjects st) 10 = Fin (real n)"
    and w: "parseFloat h (objectWidth st) = Fin w"
    and s: "js_or (parseFloat h (desiredSpacing st)) (Fin 0) = Fin s"
    and v: "0 < W" "0 < w" "1 \<le> n" "0 \<le> s" "real n * w \<le> W"
      "real n * w + (real n - 1) * s \<le> W"
  shows "\<exists>txt. calculatePositions h st = Some (st\<lparr>error := None,
            visualData := Some (layout_of W n w s), results := Some txt\<rparr>)"
proof -
  obtain h1 where L1: "place_loop h (Fin (real n)) (Fin w) (Fin s) (Fin 0)
       (Fin ((W - (real n * w + (real n - 1) * s)) / 2)) []
       (desired_header h (Fin ((W - (real n * w + (real n - 1) * s)) / 2)) (Fin s))
     = Some (objs_from ((W - (real n * w + (real n - 1) * s)) / 2) w s n, h1)"
    using place_loop_fin0 by blast
  obtain h2 where L2: "place_loop h (Fin (real n)) (Fin w) (Fin ((W - real n * w) / (real n + 1))) (Fin 0)
       (Fin ((W - real n * w) / (real n + 1))) []
       (uniform_header h (Fin ((W - real n * w) / (real n + 1))))
     = Some (objs_from ((W - real n * w) / (real n + 1)) w ((W - real n * w) / (real n + 1)) n, h2)"
    using place_loop_fin0 by blast
  have n1: "real n + 1 \<noteq> 0" by (simp add: add_nonneg_eq_0_iff)
  show ?thesis
    using v L1 L2 n1
    by (auto simp add: calculatePositions_def W n w s Let_def isNaN_def strict_eq_def layout_of_def
        split: if_splits)
qed

lemma uniform_last_gap:
  assumes "g = (W - real n * w) / (real n + 1)" "0 < n"
  shows "W - (g + real (n - 1) * (w + g) + w) = g"
proof -
  have "g * (real n + 1) = W - real n * w" using assms(1) by (simp add: add_nonneg_eq_0_iff)
  moreover have "real (n - 1) = real n - 1" using assms(2) by (simp add: of_nat_diff)
  ultimately show ?thesis by (simp add: algebra_simps)
qed

lemma desired_last_gap:
  assumes "sg = (W - (real n * w + (real n - 1) * s)) / 2" "0 < n"
  shows "W - (sg + real (n - 1) * (w + s) + w) = sg"
proof -
  have "2 * sg = W - (real n * w + (real n - 1) * s)" using assms(1) by simp
  moreover have "real (n - 1) = real n - 1" using assms(2) by (simp add: of_nat_diff)
  ultimately show ?thesis by (simp add: algebra_simps)
qed

lemma table_parse [simp]:
  "parseFloat table_host = table_parseFloat" "parseInt table_host = table_parseInt"
  by (simp_all add: table_host_def)

lemma request_sel [simp]:
  "wallWidth_in (request a b c d) = a" "numObjects (request a b c d) = b"
  "objectWidth (request a b c d) = c" "desiredSpacing (request a b c d) = d"
  by (simp_all add: request_def)

text \<open>
  Claim C2. A request whose fields parse to finite numbers, with more than one object and
  a desired spacing of 0 (an empty or unparsable field counts as 0), that passes every
  check: the stored layout is in uniform mode, \<open>gapSize\<close> is
  \<open>(wallLength - objectCount * objectWidth) / (objectCount + 1)\<close>, object \<open>i\<close> starts at
  \<open>gapSize + i * (objectWidth + gapSize)\<close>, and the \<open>objectCount + 1\<close> gaps all equal
  \<open>gapSize\<close>. The example of the claim, wall 300, 3 objects of width 10, is the witness.
\<close>

theorem uniform_layout:
  assumes W: "parseFloat h (wallWidth_in st) = Fin W"
    and n: "parseInt h (numObjects st) 10 = Fin (real n)"
    and w: "parseFloat h (objectWidth st) = Fin w"
    and s: "js_or (parseFloat h (desiredSpacing st)) (Fin 0) = Fin 0"
    and n1: "1 < n"
    and ret: "calculatePositions h st = Some st'"
    and ok: "error st' = None"
    and g: "g = (W - real n * w) / (real n + 1)"
  shows "\<exists>vd. visualData st' = Some vd \<and> mode vd = uniform \<and> gapSize vd = Some (Fin g)
     \<and> length (objects vd) = n
     \<and> (\<forall>i<n. objects vd ! i = \<lparr>start = Fin (g + real i * (w + g)), width = Fin w\<rparr>)
     \<and> gaps_of (wallWidth vd) (objects vd) = replicate (n + 1) (Fin g)"
proof -
  from calc_ok[OF W n w s ret ok] obtain rep where
    eq: "st' = st\<lparr>error := None, visualData := Some (layout_of W n w 0), results := Some rep\<rparr>"
    by blast
  have vd: "visualData st' = Some (layout_of W n w 0)" by (simp add: eq)
  have lo: "layout_of W n w 0 = \<lparr>wallWidth = Fin W, objects = objs_from g w g n,
         mode = uniform, gapSize = Some (Fin g), sideGap = None, innerGap = None\<rparr>"
    using n1 by (simp add: layout_of_def g)
  have n0: "0 < n" using n1 by simp
  have "gaps_of (Fin W) (objs_from g w g n) = Fin g # replicate (n - 1) (Fin g) @ [Fin g]"
    unfolding gaps_of_objs_from[OF n0] uniform_last_gap[OF g n0] ..
  moreover obtain m where "n = Suc m" using n0 by (cases n) auto
  ultimately have gaps: "gaps_of (Fin W) (objs_from g w g n) = replicate (n + 1) (Fin g)"
    by (simp add: replicate_append_same)
  show ?thesis
    unfolding vd lo using gaps by (simp add: objs_from_nth)
qed

theorem uniform_layout_witness:
  "\<exists>st'. calculatePositions table_host (request ''300'' ''3'' ''10'' ''0'') = Some st'
     \<and> error st' = None
     \<and> (\<exists>vd. visualData st' = Some vd \<and> mode vd = uniform \<and> gapSize vd = Some (Fin 67.5)
          \<and> length (objects vd) = 3
          \<and> start (objects vd ! 0) = Fin 67.5 \<and> start (objects vd ! 1) = Fin 145
          \<and> start (objects vd ! 2) = Fin 222.5
          \<and> gaps_of (wallWidth vd) (objects vd) = replicate 4 (Fin 67.5))"
proof -
  let ?st = "request ''300'' ''3'' ''10'' ''0''"
  have W: "parseFloat table_host (wallWidth_in ?st) = Fin 300"
    and n: "parseInt table_host (numObjects ?st) 10 = Fin (real 3)"
    and w: "parseFloat table_host (objectWidth ?st) = Fin 10"
    and s: "js_or (parseFloat table_host (desiredSpacing ?st)) (Fin 0) = Fin 0"
    by (simp_all add: table_parseFloat_def table_parseInt_def js_or_def)
  from calc_valid[OF W n w s] obtain st' where
    ret: "calculatePositions table_host ?st = Some st'" and ok: "error st' = None"
    by fastforce
  have g: "(67.5::real) = (300 - real 3 * 10) / (real 3 + 1)" by simp
  from uniform_layout[OF W n w s _ ret ok g] obtain vd where
    vd: "visualData st' = Some vd" "mode vd = uniform" "gapSize vd = Some (Fin 67.5)"
      "length (objects vd) = 3"
      "\<forall>i<3. objects vd ! i = \<lparr>start = Fin (67.5 + real i * (10 + 67.5)), width = Fin 10\<rparr>"
      "gaps_of (wallWidth vd) (objects vd) = replicate (3 + 1) (Fin 67.5)"
    by auto
  have "start (objects vd ! 0) = Fin 67.5" "start (objects vd ! 1) = Fin 145"
    "start (objects vd ! 2) = Fin 222.5"
    using vd(5) by simp_all
  then show ?thesis using ret ok vd by simp
qed

text \<open>
  Claim C3. A request whose fields parse to finite numbers, with more than one object and
  a desired spacing above 0, that passes every check: \<open>sideGap\<close> is half of what the
  objects and the inner spacing leave free, the first object starts at \<open>sideGap\<close>, every
  later object starts at the end of the one before plus the desired spacing, the gaps at
  the two walls both equal \<open>sideGap\<close> and every inner gap equals the desired spacing.
\<close>

theorem desired_layout:
  assumes W: "parseFloat h (wallWidth_in st) = Fin W"
    and n: "parseInt h (numObjects st) 10 = Fin (real n)"
    and w: "parseFloat h (objectWidth st) = Fin w"
    and s: "parseFloat h (desiredSpacing st) = Fin s"
    and s0: "0 < s"
    and n1: "1 < n"
    and ret: "calculatePositions h st = Some st'"
    and ok: "error st' = None"
    and sg: "sg = (W - (real n * w + (real n - 1) * s)) / 2"
  shows "\<exists>vd. visualData st' = Some vd \<and> mode vd = desired
     \<and> sideGap vd = Some (Fin sg) \<and> innerGap vd = Some (Fin s)
     \<and> length (objects vd) = n
     \<and> start (objects vd ! 0) = Fin sg
     \<and> (\<forall>i. Suc i < n \<longrightarrow>
            start (objects vd ! Suc i) = (start (objects vd ! i) + width (objects vd ! i)) + Fin s)
     \<and> gaps_of (wallWidth vd) (objects vd) = Fin sg # replicate (n - 1) (Fin s) @ [Fin sg]"
proof -
  have s': "js_or (parseFloat h (desiredSpacing st)) (Fin 0) = Fin s"
    using s s0 by (simp add: js_or_def)
  from calc_ok[OF W n w s' ret ok] obtain rep where
    eq: "st' = st\<lparr>error := None, visualData := Some (layout_of W n w s), results := Some rep\<rparr>"
    by blast
  have vd: "visualData st' = Some (layout_of W n w s)" by (simp add: eq)
  have lo: "layout_of W n w s = \<lparr>wallWidth = Fin W, objects = objs_from sg w s n,
         mode = desired, gapSize = None, sideGap = Some (Fin sg), innerGap = Some (Fin s)\<rparr>"
    using n1 s0 by (simp add: layout_of_def sg)
  have n0: "0 < n" using n1 by simp
  have gaps: "gaps_of (Fin W) (objs_from sg w s n) = Fin sg # replicate (n - 1) (Fin s) @ [Fin sg]"
    using desired_last_gap[OF sg n0] n0 by (simp add: gaps_of_objs_from)
  have step: "start (objs_from sg w s n ! Suc i)
       = (start (objs_from sg w s n ! i) + width (objs_from sg w s n ! i)) + Fin s"
    if "Suc i < n" for i
    using that by (simp add: objs_from_nth algebra_simps)
  show ?thesis
    unfolding vd lo using gaps step n0 by (simp add: objs_from_nth)
qed

theorem desired_layout_witness:
  "\<exists>st'. calculatePositions table_host (request ''300'' ''3'' ''10'' ''20'') = Some st'
     \<and> error st' = None
     \<and> (\<exists>vd. visualData st' = Some vd \<and> mode vd = desired \<and> sideGap vd = Some (Fin 115)
          \<and> innerGap vd = Some (Fin 20) \<and> length (objects vd) = 3
          \<and> start (objects vd ! 0) = Fin 115
          \<and> start (objects vd ! 1) = (start (objects vd ! 0) + width (objects vd ! 0)) + Fin 20
          \<and> start (objects vd ! 2) = (start (objects vd ! 1) + width (objects vd ! 1)) + Fin 20
          \<and> gaps_of (wallWidth vd) (objects vd) = [Fin 115, Fin 20, Fin 20, Fin 115])"
proof -
  let ?st = "request ''300'' ''3'' ''10'' ''20''"
  have W: "parseFloat table_host (wallWidth_in ?st) = Fin 300"
    and n: "parseInt table_host (numObjects ?st) 10 = Fin (real 3)"
    and w: "parseFloat table_host (objectWidth ?st) = Fin 10"
    and s: "parseFloat table_host (desiredSpacing ?st) = Fin 20"
    and s': "js_or (parseFloat table_host (desiredSpacing ?st)) (Fin 0) = Fin 20"
    by (simp_all add: table_parseFloat_def table_parseInt_def js_or_def)
  from calc_valid[OF W n w s'] obtain st' where
    ret: "calculatePositions table_host ?st = Some st'" and ok: "error st' = None"
    by fastforce
  have sg: "(115::real) = (300 - (real 3 * 10 + (real 3 - 1) * 20)) / 2" by simp
  from desired_layout[OF W n w s _ _ ret ok sg] obtain vd where
    vd: "visualData st' = Some vd" "mode vd = desired" "sideGap vd = Some (Fin 115)"
      "innerGap vd = Some (Fin 20)" "length (objects vd) = 3"
      "start (objects vd ! 0) = Fin 115"
      "\<forall>i. Suc i < 3 \<longrightarrow>
            start (objects vd ! Suc i) = (start (objects vd ! i) + width (objects vd ! i)) + Fin 20"
      "gaps_of (wallWidth vd) (objects vd) = Fin 115 # replicate (3 - 1) (Fin 20) @ [Fin 115]"
    by auto
  have "start (objects vd ! Suc 0) = (start (objects vd ! 0) + width (objects vd ! 0)) + Fin 20"
    "start (objects vd ! Suc (Suc 0)) = (start (objects vd ! Suc 0) + width (objects vd ! Suc 0)) + Fin 20"
    using vd(7) by simp_all
  moreover have "replicate (3 - 1) (Fin 20) = [Fin 20, Fin 20]"
    by (simp add: numeral_2_eq_2)
  ultimately show ?thesis using ret ok vd by (simp add: numeral_2_eq_2)
qed

text \<open>
  Claim C9. Two requests that differ only in the object width, with more than one object
  and a desired spacing of 0, both passing every check: the one with the larger object
  width has the strictly smaller \<open>gapSize\<close>.
\<close>

theorem gap_monotone:
  assumes W: "parseFloat h (wallWidth_in st) = Fin W"
    and n: "parseInt h (numObjects st) 10 = Fin (real n)"
    and s: "js_or (parseFloat h (desiredSpacing st)) (Fin 0) = Fin 0"
    and w1: "parseFloat h (objectWidth st) = Fin w1"
    and w2: "parseFloat h ow2 = Fin w2"
    and n1: "1 < n"
    and ret1: "calculatePositions h st = Some st1"
    and ok1: "error st1 = None"
    and ret2: "calculatePositions h (st\<lparr>objectWidth := ow2\<rparr>) = Some st2"
    and ok2: "error st2 = None"
    and lt: "w1 < w2"
  shows "\<exists>vd1 vd2 g1 g2. visualData st1 = Some vd1 \<and> visualData st2 = Some vd2
     \<and> mode vd1 = uniform \<and> mode vd2 = uniform
     \<and> gapSize vd1 = Some g1 \<and> gapSize vd2 = Some g2 \<and> g2 < g1"
proof -
  let ?st = "st\<lparr>objectWidth := ow2\<rparr>"
  from calc_ok[OF W n w1 s ret1 ok1] obtain t1 where
    e1: "st1 = st\<lparr>error := None, visualData := Some (layout_of W n w1 0), results := Some t1\<rparr>"
    by blast
  have "parseFloat h (wallWidth_in ?st) = Fin W" "parseInt h (numObjects ?st) 10 = Fin (real n)"
    "parseFloat h (objectWidth ?st) = Fin w2"
    "js_or (parseFloat h (desiredSpacing ?st)) (Fin 0) = Fin 0"
    using W n w2 s by simp_all
  from calc_ok[OF this ret2 ok2] obtain t2 where
    e2: "st2 = ?st\<lparr>error := None, visualData := Some (layout_of W n w2 0), results := Some t2\<rparr>"
    by blast
  have "(W - real n * w2) / (real n + 1) < (W - real n * w1) / (real n + 1)"
    using lt n1 by (simp add: divide_strict_right_mono)
  then show ?thesis
    using n1 by (simp add: e1 e2 layout_of_def)
qed

theorem gap_monotone_witness:
  "\<exists>st1 st2. calculatePositions table_host (request ''300'' ''3'' ''10'' '''') = Some st1
     \<and> calculatePositions table_host ((request ''300'' ''3'' ''10'' '''')\<lparr>objectWidth := ''20''\<rparr>) = Some st2
     \<and> error st1 = None \<and> error st2 = None
     \<and> (\<exists>vd1 vd2 g1 g2. visualData st1 = Some vd1 \<and> visualData st2 = Some vd2
          \<and> mode vd1 = uniform \<and> mode vd2 = uniform
          \<and> gapSize vd1 = Some g1 \<and> gapSize vd2 = Some g2 \<and> g2 < g1)"
proof -
  let ?st = "request ''300'' ''3'' ''10'' ''''"
  let ?st2 = "?st\<lparr>objectWidth := ''20''\<rparr>"
  have W: "parseFloat table_host (wallWidth_in ?st) = Fin 300"
    and n: "parseInt table_host (numObjects ?st) 10 = Fin (real 3)"
    and w1: "parseFloat table_host (objectWidth ?st) = Fin 10"
    and s: "js_or (parseFloat table_host (desiredSpacing ?st)) (Fin 0) = Fin 0"
    and w2: "parseFloat table_host ''20'' = Fin 20"
    by (simp_all add: table_parseFloat_def table_parseInt_def js_or_def)
  have W': "parseFloat table_host (wallWidth_in ?st2) = Fin 300"
    and n': "parseInt table_host (numObjects ?st2) 10 = Fin (real 3)"
    and w': "parseFloat table_host (objectWidth ?st2) = Fin 20"
    and s': "js_or (parseFloat table_host (desiredSpacing ?st2)) (Fin 0) = Fin 0"
    by (simp_all add: table_parseFloat_def table_parseInt_def js_or_def)
  from calc_valid[OF W n w1 s] obtain st1 where
    ret1: "calculatePositions table_host ?st = Some st1" and ok1: "error st1 = None"
    by fastforce
  from calc_valid[OF W' n' w' s'] obtain st2 where
    ret2: "calculatePositions table_host ?st2 = Some st2" and ok2: "error st2 = None"
    by fastforce
  from gap_monotone[OF W n s w1 w2 _ ret1 ok1 ret2 ok2]
  show ?thesis using ret1 ok1 ret2 ok2 by simp
qed

lemma layout_of_objects:
  assumes v: "0 < W" "0 < w" "1 \<le> n" "0 \<le> s" "real n * w \<le> W"
      "if 0 < s \<and> 1 < n then real n * w + (real n - 1) * s \<le> W else True"
  shows "\<exists>c g. objects (layout_of W n w s) = objs_from c w g n \<and> 0 \<le> c \<and> 0 \<le> g
     \<and> W - (c + real (n - 1) * (w + g) + w) = c"
proof -
  have n0: "0 < n" using v(3) by simp
  show ?thesis
  proof (cases "0 < s \<and> 1 < n")
    case True
    define sg where "sg = (W - (real n * w + (real n - 1) * s)) / 2"
    have 1: "objects (layout_of W n w s) = objs_from sg w s n"
      using True by (simp add: layout_of_def sg_def)
    have 2: "0 \<le> sg" using v(6) True by (simp add: sg_def)
    have 3: "W - (sg + real (n - 1) * (w + s) + w) = sg"
      by (rule desired_last_gap[OF sg_def n0])
    show ?thesis using 1 2 3 v(4) by blast
  next
    case False
    show ?thesis
    proof (cases "n = 1")
      case True
      have 1: "objects (layout_of W n w s) = objs_from ((W - w) / 2) w 0 n"
        using True False by (auto simp add: layout_of_def)
      have 2: "0 \<le> (W - w) / 2" using v(5) True by simp
      have 3: "W - ((W - w) / 2 + real (n - 1) * (w + 0) + w) = (W - w) / 2"
        using True by (simp add: field_simps)
      show ?thesis using 1 2 3 by blast
    next
      case n1: False
      define g where "g = (W - real n * w) / (real n + 1)"
      have 1: "objects (layout_of W n w s) = objs_from g w g n"
        using False n1 by (auto simp add: layout_of_def g_def)
      have 2: "0 \<le> g" using v(5) by (simp add: g_def)
      have 3: "W - (g + real (n - 1) * (w + g) + w) = g"
        by (rule uniform_last_gap[OF g_def n0])
      show ?thesis using 1 2 3 by blast
    qed
  qed
qed

text \<open>
  Claim C1. A request whose fields parse to finite numbers and that passes every check, in
  any of the placement branches: the gaps (wall to first object, between consecutive
  objects, last object to wall) and the widths of the objects add up to the wall length,
  no gap is negative, the first object starts at or after 0 and the last one ends at or
  before the wall length. The sum is exact, since finite arithmetic is exact here.
\<close>

theorem gaps_account_for_wall:
  assumes W: "parseFloat h (wallWidth_in st) = Fin W"
    and n: "parseInt h (numObjects st) 10 = Fin (real n)"
    and w: "parseFloat h (objectWidth st) = Fin w"
    and s: "js_or (parseFloat h (desiredSpacing st)) (Fin 0) = Fin s"
    and ret: "calculatePositions h st = Some st'"
    and ok: "error st' = None"
  shows "\<exists>vd. visualData st' = Some vd \<and> wallWidth vd = Fin W \<and> length (objects vd) = n
     \<and> js_sum (gaps_of (wallWidth vd) (objects vd)) + js_sum (map width (objects vd))
          = wallWidth vd
     \<and> list_all (\<lambda>g. Fin 0 \<le> g) (gaps_of (wallWidth vd) (objects vd))
     \<and> Fin 0 \<le> start (hd (objects vd))
     \<and> start (last (objects vd)) + width (last (objects vd)) \<le> wallWidth vd"
proof -
  from calc_ok[OF W n w s ret ok] obtain rep where
    v: "0 < W" "0 < w" "1 \<le> n" "0 \<le> s" "real n * w \<le> W"
      "if 0 < s \<and> 1 < n then real n * w + (real n - 1) * s \<le> W else True"
    and eq: "st' = st\<lparr>error := None, visualData := Some (layout_of W n w s), results := Some rep\<rparr>"
    by blast
  have n0: "0 < n" using v(3) by simp
  have rn: "real (n - 1) = real n - 1" using n0 by (simp add: of_nat_diff)
  have lw: "wallWidth (layout_of W n w s) = Fin W" by (simp add: layout_of_def)
  obtain c g where lo: "objects (layout_of W n w s) = objs_from c w g n"
    and c0: "0 \<le> c" and g0: "0 \<le> g" and l: "W - (c + real (n - 1) * (w + g) + w) = c"
    using layout_of_objects[OF v] by blast
  have l0: "0 \<le> W - (c + real (n - 1) * (w + g) + w)" unfolding l by (rule c0)
  have vd: "visualData st' = Some (layout_of W n w s)" by (simp add: eq)
  have gaps: "list_all (\<lambda>g. Fin 0 \<le> g) (gaps_of (Fin W) (objs_from c w g n))"
    using n0 c0 g0 l0 by (simp add: gaps_of_objs_from list_all_iff)
  have "c + real (n - 1) * (w + g) + w \<le> W" using l0 by simp
  then show ?thesis
    unfolding vd using lw lo gaps js_sum_gaps[OF n0, of W c w g] n0 c0
    by (simp add: hd_objs_from last_objs_from)
qed

theorem gaps_account_for_wall_witness:
  "\<exists>st'. calculatePositions table_host (request ''300'' ''3'' ''10.0'' ''20'') = Some st'
     \<and> error st' = None
     \<and> (\<exists>vd. visualData st' = Some vd \<and> wallWidth vd = Fin 300 \<and> length (objects vd) = 3
     \<and> js_sum (gaps_of (wallWidth vd) (objects vd)) + js_sum (map width (objects vd))
          = wallWidth vd
     \<and> list_all (\<lambda>g. Fin 0 \<le> g) (gaps_of (wallWidth vd) (objects vd))
     \<and> Fin 0 \<le> start (hd (objects vd))
     \<and> start (last (objects vd)) + width (last (objects vd)) \<le> wallWidth vd)"
proof -
  let ?st = "request ''300'' ''3'' ''10.0'' ''20''"
  have W: "parseFloat table_host (wallWidth_in ?st) = Fin 300"
    and n: "parseInt table_host (numObjects ?st) 10 = Fin (real 3)"
    and w: "parseFloat table_host (objectWidth ?st) = Fin 10"
    and s: "js_or (parseFloat table_host (desiredSpacing ?st)) (Fin 0) = Fin 20"
    by (simp_all add: table_parseFloat_def table_parseInt_def js_or_def)
  from calc_valid[OF W n w s] obtain st' where
    ret: "calculatePositions table_host ?st = Some st'" and ok: "error st' = None"
    by fastforce
  from gaps_account_for_wall[OF W n w s ret ok]
  show ?thesis using ret ok by simp
qed

subsection \<open>Errors\<close>



lemma calc_returns:
  assumes "\<not> (parseInt h (numObjects st) 10 = PInf \<and> parseFloat h (wallWidth_in st) = PInf)"
  shows "\<exists>st'. calculatePositions h st = Some st'"
proof (cases "parseInt h (numObjects st) 10 = PInf")
  case False
  let ?W = "parseFloat h (wallWidth_in st)"
  let ?N = "parseInt h (numObjects st) 10"
  let ?w = "parseFloat h (objectWidth st)"
  let ?s = "js_or (parseFloat h (desiredSpacing st)) (Fin 0)"
  let ?sg = "(?W - (?N * ?w + (?N - Fin 1) * ?s)) / Fin 2"
  let ?g = "(?W - ?N * ?w) / (?N + Fin 1)"
  obtain a1 b1 where L1: "place_loop h ?N ?w ?s (Fin 0) ?sg [] (desired_header h ?sg ?s) = Some (a1, b1)"
    using place_loop_returns'[OF False, of h ?w ?s 0 ?sg "[]" "desired_header h ?sg ?s"] by auto
  obtain a2 b2 where L2: "place_loop h ?N ?w ?g (Fin 0) ?g [] (uniform_header h ?g) = Some (a2, b2)"
    using place_loop_returns'[OF False, of h ?w ?g 0 ?g "[]" "uniform_header h ?g"] by auto
  show ?thesis
    by (simp add: calculatePositions_def Let_def L1 L2)
next
  case True
  then have w: "parseFloat h (wallWidth_in st) \<noteq> PInf" using assms by simp
  show ?thesis
    using True w
    by (cases "parseFloat h (wallWidth_in st)"; cases "parseFloat h (objectWidth st)")
       (auto simp add: calculatePositions_def Let_def isNaN_def less_eq_jsnum_def)
qed

text \<open>
  Claim C6, as amended. The first check of \<open>calculatePositions\<close> is \<open>isNaN\<close> on the
  three parsed numbers: the computation returns with the error \<open>InvalidInput\<close>, and with no
  layout, exactly when the wall length, the object count or the object width parses to
  \<open>NaN\<close>, whatever the other fields hold (so before every other check).
\<close>

theorem nan_is_invalid_input:
  "(isNaN (parseFloat h (wallWidth_in st)) \<or> isNaN (parseInt h (numObjects st) 10)
      \<or> isNaN (parseFloat h (objectWidth st)))
   \<longleftrightarrow> calculatePositions h st
         = Some (st\<lparr>error := Some InvalidInput, results := None, visualData := None\<rparr>)"
proof
  assume "isNaN (parseFloat h (wallWidth_in st)) \<or> isNaN (parseInt h (numObjects st) 10)
      \<or> isNaN (parseFloat h (objectWidth st))"
  then show "calculatePositions h st
         = Some (st\<lparr>error := Some InvalidInput, results := None, visualData := None\<rparr>)"
    by (simp add: calculatePositions_def Let_def)
next
  assume a: "calculatePositions h st
         = Some (st\<lparr>error := Some InvalidInput, results := None, visualData := None\<rparr>)"
  have e: "error (st\<lparr>error := Some InvalidInput, results := None, visualData := None\<rparr>)
     = Some InvalidInput" by simp
  show "isNaN (parseFloat h (wallWidth_in st)) \<or> isNaN (parseInt h (numObjects st) 10)
      \<or> isNaN (parseFloat h (objectWidth st))"
  proof (rule ccontr)
    assume n: "\<not> ?thesis"
    have "error st' \<noteq> Some InvalidInput" if "calculatePositions h st = Some st'" for st'
      using that n
      by (auto simp add: calculatePositions_def Let_def split: if_splits option.splits)
    from this[OF a] e show False by simp
  qed
qed

theorem nan_is_invalid_input_witness:
  "isNaN (parseFloat table_host (wallWidth_in (request ''abc'' ''3'' ''10'' ''-5'')))
   \<and> calculatePositions table_host (request ''abc'' ''3'' ''10'' ''-5'')
         = Some ((request ''abc'' ''3'' ''10'' ''-5'')\<lparr>error := Some InvalidInput\<rparr>)"
proof -
  have "isNaN (parseFloat table_host (wallWidth_in (request ''abc'' ''3'' ''10'' ''-5'')))"
    by (simp add: table_parseFloat_def isNaN_def)
  then show ?thesis
    using nan_is_invalid_input[of table_host "request ''abc'' ''3'' ''10'' ''-5''"]
    by (simp add: request_def)
qed

text \<open>
  The claim as stated also has \<open>Infinity\<close> and \<open>-Infinity\<close> rejected with
  \<open>InvalidInput\<close>. \<open>isNaN\<close> is false on both: a wall length of \<open>Infinity\<close> passes every
  check and the computation returns without an error, and a wall length of \<open>-Infinity\<close> is
  reported by the next check as \<open>NonPositiveWall\<close>.
\<close>

theorem infinite_input_counterexample:
  "parseFloat table_host ''Infinity'' = PInf
   \<and> map_option error (calculatePositions table_host (request ''Infinity'' ''3'' ''10'' ''''))
       = Some None
   \<and> parseFloat table_host ''-Infinity'' = NInf
   \<and> map_option error (calculatePositions table_host (request ''-Infinity'' ''3'' ''10'' ''''))
       = Some (Some NonPositiveWall)"
proof -
  have 1: "parseFloat table_host ''Infinity'' = PInf" "parseFloat table_host ''-Infinity'' = NInf"
    by (simp_all add: table_parseFloat_def)
  have 2: "map_option error (calculatePositions table_host (request ''-Infinity'' ''3'' ''10'' ''''))
       = Some (Some NonPositiveWall)"
    by (simp add: calculatePositions_def Let_def table_parseFloat_def table_parseInt_def
        isNaN_def less_eq_jsnum_def)
  obtain st' where r: "calculatePositions table_host (request ''Infinity'' ''3'' ''10'' '''') = Some st'"
    using calc_returns[of table_host "request ''Infinity'' ''3'' ''10'' ''''"]
    by (auto simp add: table_parseInt_def)
  have "error st' = None"
    using r
    by (auto simp add: calculatePositions_def Let_def table_parseFloat_def table_parseInt_def
        isNaN_def less_eq_jsnum_def js_or_def strict_eq_def split: option.splits)
  then show ?thesis using 1 2 r by simp
qed



text \<open>
  Claim C10. When the desired-spacing field parses to \<open>NaN\<close>, the spacing used is 0; the
  computation never reports \<open>NegativeSpacing\<close> or \<open>SpacingExceedsWall\<close>; and a layout that
  it stores comes from the branch for uniform spacing (line 104): the single centred
  object when the count is 1, and otherwise uniform mode with
  \<open>gapSize = (wallW - numObj * objW) / (numObj + 1)\<close>.
\<close>

theorem unparsable_spacing_is_zero:
  assumes nan: "isNaN (parseFloat h (desiredSpacing st))"
  shows "js_or (parseFloat h (desiredSpacing st)) (Fin 0) = Fin 0
     \<and> (calculatePositions h st = Some st' \<longrightarrow>
          error st' \<noteq> Some NegativeSpacing \<and> error st' \<noteq> Some SpacingExceedsWall
          \<and> (\<forall>vd. visualData st' = Some vd \<longrightarrow>
                 (if strict_eq (parseInt h (numObjects st) 10) (Fin 1)
                  then objects vd = [\<lparr>start = (parseFloat h (wallWidth_in st)
                                             - parseFloat h (objectWidth st)) / Fin 2,
                                     width = parseFloat h (objectWidth st)\<rparr>]
                  else mode vd = uniform
                    \<and> gapSize vd = Some ((parseFloat h (wallWidth_in st)
                           - parseInt h (numObjects st) 10 * parseFloat h (objectWidth st))
                          / (parseInt h (numObjects st) 10 + Fin 1)))))"
proof -
  have z: "js_or (parseFloat h (desiredSpacing st)) (Fin 0) = Fin 0"
    using nan by (simp add: js_or_def isNaN_def)
  have "error st' \<noteq> Some NegativeSpacing \<and> error st' \<noteq> Some SpacingExceedsWall
          \<and> (\<forall>vd. visualData st' = Some vd \<longrightarrow>
                 (if strict_eq (parseInt h (numObjects st) 10) (Fin 1)
                  then objects vd = [\<lparr>start = (parseFloat h (wallWidth_in st)
                                             - parseFloat h (objectWidth st)) / Fin 2,
                                     width = parseFloat h (objectWidth st)\<rparr>]
                  else mode vd = uniform
                    \<and> gapSize vd = Some ((parseFloat h (wallWidth_in st)
                           - parseInt h (numObjects st) 10 * parseFloat h (objectWidth st))
                          / (parseInt h (numObjects st) 10 + Fin 1))))"
    if r: "calculatePositions h st = Some st'"
  proof (cases "strict_eq (parseInt h (numObjects st) 10) (Fin 1)")
    case True
    with r show ?thesis
      by (simp add: calculatePositions_def Let_def z split: if_splits) auto
  next
    case False
    with r show ?thesis
      by (simp add: calculatePositions_def Let_def z split: if_splits option.splits prod.splits) auto
  qed
  then show ?thesis using z by simp
qed

theorem unparsable_spacing_is_zero_witness:
  "isNaN (parseFloat table_host (desiredSpacing (request ''300'' ''3'' ''10'' ''abc'')))
   \<and> (\<exists>st' vd. calculatePositions table_host (request ''300'' ''3'' ''10'' ''abc'') = Some st'
         \<and> error st' = None \<and> visualData st' = Some vd \<and> mode vd = uniform
         \<and> gapSize vd = Some (Fin 67.5))"
proof -
  let ?st = "request ''300'' ''3'' ''10'' ''abc''"
  have nan: "isNaN (parseFloat table_host (desiredSpacing ?st))"
    by (simp add: table_parseFloat_def isNaN_def)
  have W: "parseFloat table_host (wallWidth_in ?st) = Fin 300"
    and n: "parseInt table_host (numObjects ?st) 10 = Fin (real 3)"
    and w: "parseFloat table_host (objectWidth ?st) = Fin 10"
    and s: "js_or (parseFloat table_host (desiredSpacing ?st)) (Fin 0) = Fin 0"
    by (simp_all add: table_parseFloat_def table_parseInt_def js_or_def)
  from calc_valid[OF W n w s] obtain st' where
    ret: "calculatePositions table_host ?st = Some st'" and ok: "error st' = None"
      and v: "visualData st' \<noteq> None"
    by fastforce
  then obtain vd where vd: "visualData st' = Some vd" by auto
  from unparsable_spacing_is_zero[OF nan, of st'] ret vd
  have "mode vd = uniform \<and> gapSize vd = Some (Fin 67.5)"
    by (simp add: table_parseFloat_def table_parseInt_def strict_eq_def)
  then show ?thesis using nan ret ok vd by simp
qed

section \<open>Properties of the diagram\<close>

lemma Fin_div [simp]: "b \<noteq> 0 \<Longrightarrow> Fin a / Fin b = Fin (a / b)"
  by simp

lemma Math_max_Fin [simp]: "Math_max (Fin a) (Fin b) = Fin (max a b)"
  by (simp add: Math_max_def max_def)

lemma finite_num_iff: "finite_num a \<longleftrightarrow> (\<exists>r. a = Fin r)"
  by (cases a) simp_all

lemma transform_ok_iff:
  "transform_ok tr \<longleftrightarrow>
     (\<exists>s tx ty. tr = \<lparr>scale = Fin s, translateX = Fin tx, translateY = Fin ty\<rparr> \<and> 1 \<le> s)"
proof
  assume "transform_ok tr"
  then obtain s tx ty where "scale tr = Fin s" "translateX tr = Fin tx" "translateY tr = Fin ty"
    "1 \<le> s"
    by (auto simp add: transform_ok_def finite_num_iff)
  then have "tr = \<lparr>scale = Fin s, translateX = Fin tx, translateY = Fin ty\<rparr> \<and> 1 \<le> s"
    by (cases tr) simp
  then show "\<exists>s tx ty. tr = \<lparr>scale = Fin s, translateX = Fin tx, translateY = Fin ty\<rparr> \<and> 1 \<le> s"
    by blast
next
  assume "\<exists>s tx ty. tr = \<lparr>scale = Fin s, translateX = Fin tx, translateY = Fin ty\<rparr> \<and> 1 \<le> s"
  then show "transform_ok tr" by (auto simp add: transform_ok_def)
qed

lemma view_inv_initial: "view_inv initial_view"
  by (simp add: view_inv_def initial_view_def initial_transform_def transform_ok_def)

lemma view_inv_resetView: "view_inv vs \<Longrightarrow> view_inv (resetView vs)"
  by (simp add: view_inv_def resetView_def transform_ok_def)

lemma view_inv_handleResize: "view_inv vs \<Longrightarrow> view_inv (handleResize entries vs)"
  by (cases entries) (simp_all add: handleResize_def view_inv_resetView view_inv_def resetView_def transform_ok_def)

lemma view_inv_handleWheel:
  assumes "view_inv vs"
  shows "view_inv (handleWheel deltaY clientX clientY rectLeft rectTop vs)"
proof -
  obtain s tx ty where tr: "transform vs = \<lparr>scale = Fin s, translateX = Fin tx, translateY = Fin ty\<rparr>"
    and s: "1 \<le> s"
    using assms by (auto simp add: view_inv_def transform_ok_iff)
  have "s \<noteq> 0" using s by simp
  then have "transform_ok (transform (handleWheel deltaY clientX clientY rectLeft rectTop vs))"
    by (simp add: handleWheel_def Let_def tr transform_ok_def)
  then show ?thesis using assms by (simp add: view_inv_def handleWheel_def Let_def)
qed

lemma view_inv_handleMouseDown: "view_inv vs \<Longrightarrow> view_inv (handleMouseDown clientX clientY vs)"
  by (simp add: view_inv_def handleMouseDown_def)

lemma pan_ok:
  assumes "view_inv vs"
  shows "view_inv (vs\<lparr>transform := (transform vs)
                     \<lparr>translateX := translateX (startTransformRef vs) + (Fin a - fst (startPanPointRef vs)),
                      translateY := translateY (startTransformRef vs) + (Fin b - snd (startPanPointRef vs))\<rparr>\<rparr>)"
  using assms by (auto simp add: view_inv_def transform_ok_def finite_num_iff)

lemma view_inv_handleMouseMove: "view_inv vs \<Longrightarrow> view_inv (handleMouseMove clientX clientY vs)"
  by (simp add: handleMouseMove_def Let_def pan_ok)

lemma view_inv_handleMouseUpOrLeave: "view_inv vs \<Longrightarrow> view_inv (handleMouseUpOrLeave vs)"
  by (simp add: view_inv_def handleMouseUpOrLeave_def)

lemma view_inv_handleTouchStart: "view_inv vs \<Longrightarrow> view_inv (handleTouchStart touches vs)"
  by (auto simp add: view_inv_def handleTouchStart_def Let_def not_sum_squares_lt_zero
      split: list.splits)

lemma view_inv_pinch:
  assumes "view_inv vs" "initialPinchDistanceRef vs > Fin 0"
  shows "view_inv (pinch x0 y0 x1 y1 rectLeft rectTop vs)"
proof -
  obtain s tx ty where tr: "startTransformRef vs = \<lparr>scale = Fin s, translateX = Fin tx, translateY = Fin ty\<rparr>"
    and s: "1 \<le> s"
    using assms by (auto simp add: view_inv_def transform_ok_iff)
  obtain d where d: "initialPinchDistanceRef vs = Fin d" and d0: "0 < d"
    using assms by (auto simp add: view_inv_def finite_num_iff)
  have "s \<noteq> 0" "d \<noteq> 0" using s d0 by simp_all
  then have "transform_ok (transform (pinch x0 y0 x1 y1 rectLeft rectTop vs))"
    by (simp add: pinch_def Let_def tr d transform_ok_def not_sum_squares_lt_zero)
  then show ?thesis using assms by (simp add: view_inv_def pinch_def Let_def)
qed

lemma view_inv_handleTouchMove:
  "view_inv vs \<Longrightarrow> view_inv (handleTouchMove touches rectLeft rectTop vs)"
  by (auto simp add: handleTouchMove_def Let_def pan_ok view_inv_pinch split: list.splits)

lemma view_inv_handleTouchEnd: "view_inv vs \<Longrightarrow> view_inv (handleTouchEnd vs)"
  by (simp add: view_inv_def handleTouchEnd_def)

lemma view_inv_handle: "view_inv vs \<Longrightarrow> view_inv (handle e vs)"
  by (cases e)
     (simp_all add: view_inv_handleWheel view_inv_handleMouseDown view_inv_handleMouseMove
        view_inv_handleMouseUpOrLeave view_inv_handleTouchStart view_inv_handleTouchMove
        view_inv_handleTouchEnd view_inv_resetView view_inv_handleResize)

lemma view_inv_run: "view_inv vs \<Longrightarrow> view_inv (run evs vs)"
  unfolding run_def by (induction evs arbitrary: vs) (simp_all add: view_inv_handle)

text \<open>
  Claim C5. The scale is at least 1 in the initial state, after every sequence of events
  (wheel, mouse, touch, reset click and resize), and after one more event handled in a
  state so reached.
\<close>

theorem scale_never_below_one:
  "Fin 1 \<le> scale (transform initial_view)
   \<and> Fin 1 \<le> scale (transform (run evs initial_view))
   \<and> Fin 1 \<le> scale (transform (handle e (run evs initial_view)))"
  using view_inv_initial view_inv_run[OF view_inv_initial, of evs]
    view_inv_handle[OF view_inv_run[OF view_inv_initial, of evs], of e]
  by (simp add: view_inv_def transform_ok_def)

theorem scale_never_below_one_witness:
  "Fin 1 \<le> scale (transform (run [Wheel 2000 110 60 10 10, MouseDown 5 5, MouseMove 9 2] initial_view))
   \<and> scale (transform (run [Wheel 2000 110 60 10 10, MouseDown 5 5, MouseMove 9 2] initial_view))
       = Fin 1
   \<and> Fin 1 \<le> scale (transform (handle (Wheel (- 500) 110 60 10 10)
           (run [Wheel 2000 110 60 10 10, MouseDown 5 5, MouseMove 9 2] initial_view)))"
proof -
  have "scale (transform (run [Wheel 2000 110 60 10 10, MouseDown 5 5, MouseMove 9 2] initial_view))
       = Fin 1"
    by (simp add: run_def handleWheel_def handleMouseDown_def handleMouseMove_def Let_def
        initial_view_def initial_transform_def)
  then show ?thesis
    using scale_never_below_one[of "[Wheel 2000 110 60 10 10, MouseDown 5 5, MouseMove 9 2]"
        "Wheel (- 500) 110 60 10 10"]
    by simp
qed

text \<open>
  Claim C4. A wheel event in a state whose transform is finite with a scale of at least 1
  (the invariant of claim C5): the new scale is \<open>max 1 (scale + (- deltaY) * 0.001)\<close>, the
  new translation is \<open>mouse - (mouse - translate) * (newScale / scale)\<close> in each axis, where
  \<open>mouse\<close> is the position of the cursor relative to the drawing; a negative \<open>deltaY\<close>
  makes the scale strictly larger; and the inverse transform takes the cursor position to
  the same point of the diagram before and after the event.
\<close>

theorem wheel_zoom:
  assumes tr: "transform vs = \<lparr>scale = Fin s, translateX = Fin tx, translateY = Fin ty\<rparr>"
    and s1: "1 \<le> s"
    and mx: "mx = clientX - rectLeft" and my: "my = clientY - rectTop"
    and ns: "ns = max 1 (s + (- deltaY) * 0.001)"
    and vs': "vs' = handleWheel deltaY clientX clientY rectLeft rectTop vs"
  shows "transform vs' = \<lparr>scale = Fin ns, translateX = Fin (mx - (mx - tx) * (ns / s)),
             translateY = Fin (my - (my - ty) * (ns / s))\<rparr>
     \<and> (deltaY < 0 \<longrightarrow> scale (transform vs) < scale (transform vs'))
     \<and> inverse_x (transform vs') (Fin mx) = inverse_x (transform vs) (Fin mx)
     \<and> inverse_y (transform vs') (Fin my) = inverse_y (transform vs) (Fin my)"
proof -
  have s0: "s \<noteq> 0" using s1 by simp
  have n1: "1 \<le> ns" and n0: "ns \<noteq> 0" using ns by simp_all
  have t: "transform vs' = \<lparr>scale = Fin ns, translateX = Fin (mx - (mx - tx) * (ns / s)),
             translateY = Fin (my - (my - ty) * (ns / s))\<rparr>"
    using s0 by (simp add: vs' handleWheel_def Let_def tr mx my ns)
  have inc: "s < ns" if "deltaY < 0"
  proof -
    have "s < s + (- deltaY) * 0.001" using that by simp
    then show ?thesis unfolding ns by simp
  qed
  have ix: "(mx - (mx - (mx - tx) * (ns / s))) / ns = (mx - tx) / s"
    using s0 n0 by (simp add: field_simps)
  have iy: "(my - (my - (my - ty) * (ns / s))) / ns = (my - ty) / s"
    using s0 n0 by (simp add: field_simps)
  show ?thesis
    unfolding t using inc ix iy s0 n0 by (simp add: tr inverse_x_def inverse_y_def)
qed

theorem wheel_zoom_witness:
  "transform (handleWheel (- 500) 110 60 10 10 initial_view)
     = \<lparr>scale = Fin 1.5, translateX = Fin (- 50), translateY = Fin (- 25)\<rparr>
   \<and> scale (transform initial_view) < scale (transform (handleWheel (- 500) 110 60 10 10 initial_view))
   \<and> inverse_x (transform (handleWheel (- 500) 110 60 10 10 initial_view)) (Fin 100)
       = inverse_x (transform initial_view) (Fin 100)
   \<and> inverse_y (transform (handleWheel (- 500) 110 60 10 10 initial_view)) (Fin 50)
       = inverse_y (transform initial_view) (Fin 50)"
proof -
  have tr: "transform initial_view = \<lparr>scale = Fin 1, translateX = Fin 0, translateY = Fin 0\<rparr>"
    by (simp add: initial_view_def initial_transform_def)
  have s1: "(1::real) \<le> 1" and mx: "(100::real) = 110 - 10" and my: "(50::real) = 60 - 10"
    and ns: "(1.5::real) = max 1 (1 + (- (- 500)) * 0.001)"
    by simp_all
  from wheel_zoom[OF tr s1 mx my ns refl]
  show ?thesis by (simp add: tr inverse_x_def inverse_y_def)
qed




end
